theory Spec2Isabelle
  imports Main
begin

section \<open>The result proxy: a batch of five registration numbers per request\<close>

text \<open>
  The repository is one serverless handler in two copies: \<^verbatim>\<open>src/api/regular/result.js\<close>
  and \<^verbatim>\<open>src/unnamed/part_000\<close>. Each validates four query parameters, builds
  five registration numbers, fetches each of them from the upstream result API and
  answers with a JSON array of five items.

  Strings are \<^typ>\<open>string\<close>: lists of code units from 0 to 255. The string functions of
  the language that the handler calls (\<^verbatim>\<open>toUpperCase\<close>, \<^verbatim>\<open>parseInt\<close>,
  \<^verbatim>\<open>encodeURIComponent\<close>, \<^verbatim>\<open>padStart\<close>) are written out below. A code unit from 128 on
  is never a digit or a sign and is escaped by \<^verbatim>\<open>encodeURIComponent\<close> as its two UTF-8 bytes;
  \<^verbatim>\<open>toUpperCase\<close> is exact on ASCII and keeps the other code units, none of which it could
  turn into a letter of a Roman numeral.
\<close>

subsection \<open>Configuration\<close>

definition RESULT_API_BASE_URL :: string where
  "RESULT_API_BASE_URL = ''https://beu-bih.ac.in/backend/v1/result/get-result''"

definition FETCH_TIMEOUT :: nat where
  "FETCH_TIMEOUT = 8000"

definition BATCH_SIZE :: int where
  "BATCH_SIZE = 5"

subsection \<open>Strings and numbers of the language\<close>

definition isDigit :: "char \<Rightarrow> bool" where
  "isDigit c = (c \<in> set ''0123456789'')"

definition isLower :: "char \<Rightarrow> bool" where
  "isLower c = (c \<in> set ''abcdefghijklmnopqrstuvwxyz'')"

definition isUpper :: "char \<Rightarrow> bool" where
  "isUpper c = (c \<in> set ''ABCDEFGHIJKLMNOPQRSTUVWXYZ'')"

text \<open>White space that \<^verbatim>\<open>parseInt\<close> skips: TAB, LF, VT, FF, CR, SP and NBSP.\<close>

definition isWhiteSpace :: "char \<Rightarrow> bool" where
  "isWhiteSpace c = (of_char c \<in> set [9, 10, 11, 12, 13, 32, 160 :: nat])"

definition upperChar :: "char \<Rightarrow> char" where
  "upperChar c =
     (case map_of (zip ''abcdefghijklmnopqrstuvwxyz'' ''ABCDEFGHIJKLMNOPQRSTUVWXYZ'') c of
        Some u \<Rightarrow> u
      | None \<Rightarrow> c)"

definition toUpperCase :: "string \<Rightarrow> string" where
  "toUpperCase s = map upperChar s"

text \<open>The value of a digit in a radix up to 36; 36 for a code unit that is no digit.\<close>

definition digitValue :: "char \<Rightarrow> nat" where
  "digitValue c =
     (if isDigit c then of_char c - 48
      else if isLower c then of_char c - 87
      else if isUpper c then of_char c - 55
      else 36)"

text \<open>
  \<^verbatim>\<open>parseInt(string, radix)\<close>, with \<open>None\<close> for a missing radix and \<open>None\<close> for the
  result NaN: leading white space and one sign are dropped, a \<^verbatim>\<open>0x\<close> prefix selects
  radix 16 when no other radix is given, and the longest prefix of digits of the radix is
  the value. The value is the mathematical integer (the language rounds it to a double,
  which is exact below \<open>2^53\<close> and never turns a number into NaN).
\<close>

definition parseInt :: "string \<Rightarrow> nat option \<Rightarrow> int option" where
  "parseInt input radix =
     (let s = dropWhile isWhiteSpace input;
          negative = (take 1 s = ''-'');
          s = (if take 1 s = ''+'' \<or> take 1 s = ''-'' then drop 1 s else s);
          hexPrefix = (take 2 s = ''0x'' \<or> take 2 s = ''0X'');
          given = (case radix of None \<Rightarrow> 0 | Some r \<Rightarrow> r);
          stripPrefix = ((given = 0 \<or> given = 16) \<and> hexPrefix);
          R = (if given = 0 then (if hexPrefix then 16 else 10) else given);
          s = (if stripPrefix then drop 2 s else s);
          ds = takeWhile (\<lambda>c. digitValue c < R) s;
          n = foldl (\<lambda>a c. a * R + digitValue c) 0 ds
      in if R < 2 \<or> 36 < R then None
         else if ds = [] then None
         else Some (if negative then - int n else int n))"

text \<open>\<^verbatim>\<open>Number.prototype.toString\<close> on an integer: the decimal digits, with a sign.\<close>

fun digits_of :: "nat \<Rightarrow> string" where
  "digits_of n =
     (if n < 10 then [''0123456789'' ! n]
      else digits_of (n div 10) @ [''0123456789'' ! (n mod 10)])"

declare digits_of.simps [simp del]

definition toString :: "int \<Rightarrow> string" where
  "toString i = (if i < 0 then CHR ''-'' # digits_of (nat (- i)) else digits_of (nat i))"

definition padStart :: "nat \<Rightarrow> char \<Rightarrow> string \<Rightarrow> string" where
  "padStart n c s = replicate (n - length s) c @ s"

text \<open>
  \<^verbatim>\<open>encodeURIComponent\<close>: the unreserved code units stay, any other is escaped byte by
  byte in UTF-8, one byte below 128 and two bytes from 128 to 255.
\<close>

definition isUnreserved :: "char \<Rightarrow> bool" where
  "isUnreserved c = (isDigit c \<or> isLower c \<or> isUpper c \<or> c \<in> set ''-_.!~*'()'')"

definition hexDigit :: "nat \<Rightarrow> char" where
  "hexDigit n = ''0123456789ABCDEF'' ! (n mod 16)"

definition percentByte :: "nat \<Rightarrow> string" where
  "percentByte b = [CHR ''%'', hexDigit (b div 16), hexDigit b]"

definition percentEscape :: "char \<Rightarrow> string" where
  "percentEscape c =
     (let u = of_char c
      in if u < 128 then percentByte u
         else percentByte (192 + u div 64) @ percentByte (128 + u mod 64))"

definition encodeURIComponent :: "string \<Rightarrow> string" where
  "encodeURIComponent s = concat (map (\<lambda>c. if isUnreserved c then [c] else percentEscape c) s)"

text \<open>\<^verbatim>\<open>s.slice(0, -3)\<close> and \<^verbatim>\<open>s.slice(-3)\<close>: all but the last three, and the last three.\<close>

definition slice_front :: "string \<Rightarrow> string" where
  "slice_front s = take (length s - 3) s"

definition slice_back :: "string \<Rightarrow> string" where
  "slice_back s = drop (length s - 3) s"

text \<open>The two regular expressions: \<^verbatim>\<open>/^\d{11}$/\<close> of result.js and \<^verbatim>\<open>/^d{11}$/\<close> of part_000.\<close>

definition test_digits11 :: "string \<Rightarrow> bool" where
  "test_digits11 s = (length s = 11 \<and> list_all isDigit s)"

definition test_d11 :: "string \<Rightarrow> bool" where
  "test_d11 s = (s = ''ddddddddddd'')"

subsection \<open>JSON values and exceptions\<close>

text \<open>
  A JSON value as \<^verbatim>\<open>JSON.parse\<close> builds it. An object is the list of its own properties
  in order. Numbers are integers: the upstream status codes are, and no other number is
  inspected by the handler.
\<close>

datatype json =
    JNull
  | JBool bool
  | JNum int
  | JStr string
  | JArr "json list"
  | JObj "(string \<times> json) list"

text \<open>An \<^verbatim>\<open>Error\<close> object that the engine throws: its \<^verbatim>\<open>name\<close> and its \<^verbatim>\<open>message\<close>.\<close>

datatype js_error = JsError (err_name: string) (err_message: string)

text \<open>
  Any value that a statement throws or a promise rejects with, as a \<^verbatim>\<open>catch\<close> clause
  receives it: \<^verbatim>\<open>null\<close>, \<^verbatim>\<open>undefined\<close>, or a value given by what its properties \<^verbatim>\<open>name\<close> and
  \<^verbatim>\<open>message\<close> read as (\<open>None\<close> is \<^verbatim>\<open>undefined\<close>, as for a thrown string or number). An
  \<^verbatim>\<open>Error\<close> object has a string for both.
\<close>

datatype thrown = Thrown "json option" "json option" | ThrownNull | ThrownUndefined

definition errorObject :: "js_error \<Rightarrow> thrown" where
  "errorObject e = Thrown (Some (JStr (err_name e))) (Some (JStr (err_message e)))"

text \<open>Truthiness; \<open>None\<close> is \<^verbatim>\<open>undefined\<close>.\<close>

fun truthy :: "json \<Rightarrow> bool" where
  "truthy JNull = False"
| "truthy (JBool b) = b"
| "truthy (JNum n) = (n \<noteq> 0)"
| "truthy (JStr s) = (s \<noteq> [])"
| "truthy (JArr xs) = True"
| "truthy (JObj kvs) = True"

definition truthyOpt :: "json option \<Rightarrow> bool" where
  "truthyOpt v = (case v of None \<Rightarrow> False | Some x \<Rightarrow> truthy x)"

text \<open>\<^verbatim>\<open>a || b\<close> where \<open>a\<close> may be \<^verbatim>\<open>undefined\<close>.\<close>

definition orElse :: "json option \<Rightarrow> json \<Rightarrow> json" where
  "orElse a b = (case a of None \<Rightarrow> b | Some x \<Rightarrow> if truthy x then x else b)"

text \<open>
  Reading one of the properties \<^verbatim>\<open>status\<close>, \<^verbatim>\<open>message\<close>, \<^verbatim>\<open>data\<close>, which no prototype
  defines: an object gives its own property, any other value but \<^verbatim>\<open>null\<close> gives
  \<^verbatim>\<open>undefined\<close>. Reading a property of \<^verbatim>\<open>null\<close> throws; the caller checks that first.
\<close>

fun getProp :: "json \<Rightarrow> string \<Rightarrow> json option" where
  "getProp (JObj kvs) k = map_of kvs k"
| "getProp v k = None"

text \<open>
  The string a template literal makes of a value. An array joins its elements with
  commas, \<^verbatim>\<open>null\<close> elements as the empty string. An object is \<^verbatim>\<open>[object Object]\<close>,
  unless it has an own property \<^verbatim>\<open>toString\<close>: that one is no function, and neither
  \<^verbatim>\<open>valueOf\<close> gives a primitive, so the conversion throws.
\<close>

fun templateString :: "json \<Rightarrow> js_error + string"
  and joinElements :: "json list \<Rightarrow> js_error + string" where
  "templateString JNull = Inr ''null''"
| "templateString (JBool b) = Inr (if b then ''true'' else ''false'')"
| "templateString (JNum n) = Inr (toString n)"
| "templateString (JStr s) = Inr s"
| "templateString (JArr xs) = joinElements xs"
| "templateString (JObj kvs) =
     (if ''toString'' \<in> set (map fst kvs)
      then Inl (JsError ''TypeError'' ''Cannot convert object to primitive value'')
      else Inr ''[object Object]'')"
| "joinElements [] = Inr []"
| "joinElements (x # xs) =
     (case (if x = JNull then Inr [] else templateString x) of
        Inl e \<Rightarrow> Inl e
      | Inr s \<Rightarrow>
          (case joinElements xs of
             Inl e \<Rightarrow> Inl e
           | Inr r \<Rightarrow> Inr (if xs = [] then s else s @ '','' @ r)))"

definition templateOpt :: "json option \<Rightarrow> js_error + string" where
  "templateOpt v = (case v of None \<Rightarrow> Inr ''undefined'' | Some x \<Rightarrow> templateString x)"

text \<open>
  \<^verbatim>\<open>delete v.k\<close> on a value that is neither \<^verbatim>\<open>null\<close> nor \<^verbatim>\<open>undefined\<close>: an object loses
  its own property \<open>k\<close>; a number, a string, a boolean or an array has no such
  property and stays as it is.
\<close>

fun deleteProp :: "string \<Rightarrow> json \<Rightarrow> json" where
  "deleteProp k (JObj kvs) = JObj (filter (\<lambda>kv. fst kv \<noteq> k) kvs)"
| "deleteProp k v = v"

subsection \<open>The upstream API\<close>

text \<open>
  What \<^verbatim>\<open>fetch\<close> gives for a URL: it rejects with some value (a network failure, or the
  abort of the timer, an error named \<^verbatim>\<open>AbortError\<close>), or it resolves to a response with
  \<^verbatim>\<open>ok\<close>, the HTTP status and a body that \<^verbatim>\<open>json()\<close> parses or rejects with some value.
\<close>

datatype response =
  Response (resp_ok: bool) (resp_status: nat) (resp_json: "thrown + json")

text \<open>
  The upstream is a function of the URL. One run of the handler never fetches the same
  URL twice (\<open>fetched_urls_distinct\<close> below), so this fixes nothing that a run could
  observe.
\<close>

type_synonym upstream = "string \<Rightarrow> thrown + response"

text \<open>
  The library's contract: \<^verbatim>\<open>fetch\<close> and \<^verbatim>\<open>json()\<close> reject with \<^verbatim>\<open>Error\<close> objects only
  (\<^verbatim>\<open>FetchError\<close>, \<^verbatim>\<open>AbortError\<close>, \<^verbatim>\<open>SyntaxError\<close>). The functions below do not assume it.
\<close>

definition isErrorObject :: "thrown \<Rightarrow> bool" where
  "isErrorObject t = (case t of Thrown (Some (JStr n)) (Some (JStr m)) \<Rightarrow> True | _ \<Rightarrow> False)"

definition rejectsWithErrors :: "thrown + response \<Rightarrow> bool" where
  "rejectsWithErrors outcome =
     (case outcome of
        Inl t \<Rightarrow> isErrorObject t
      | Inr apiResponse \<Rightarrow>
          (case resp_json apiResponse of Inl t \<Rightarrow> isErrorObject t | Inr jsonData \<Rightarrow> True))"

text \<open>A call of \<^verbatim>\<open>fetch\<close> as it is issued: the URL, the headers, the abort timer in ms.\<close>

datatype fetch_call =
  FetchCall (url: string) (req_headers: "(string \<times> string) list") (abort_after: nat)

text \<open>The object \<^verbatim>\<open>fetchSingleResult\<close> returns: \<^verbatim>\<open>{ status, regNo, reason, data }\<close>.\<close>

datatype single_result =
  SingleResult (val_status: string) (val_regNo: string)
    (val_reason: "json option") (val_data: "json option")

text \<open>A settled promise, as \<^verbatim>\<open>Promise.allSettled\<close> reports it.\<close>

datatype 'a settled = Fulfilled 'a | Rejected js_error

subsection \<open>fetchSingleResult\<close>

definition targetUrl :: "string \<Rightarrow> string \<Rightarrow> string \<Rightarrow> string \<Rightarrow> string" where
  "targetUrl regNo year semesterRoman encodedExamHeld =
     RESULT_API_BASE_URL @ ''?year='' @ year @ ''&redg_no='' @ regNo
       @ ''&semester='' @ semesterRoman @ ''&exam_held='' @ encodedExamHeld"

definition fetchHeaders :: "string \<Rightarrow> string \<Rightarrow> string \<Rightarrow> (string \<times> string) list" where
  "fetchHeaders year semesterRoman encodedExamHeld =
     [(''Accept'', ''application/json, text/plain, */*''),
      (''User-Agent'', ''Mozilla/5.0 (Windows NT 10.0; Win64; x64) AppleWebKit/537.36 (KHTML, like Gecko) Chrome/91.0.4472.124 Safari/537.36''),
      (''Referer'', ''https://beu-bih.ac.in/result-two/some-exam?semester='' @ semesterRoman
         @ ''&session='' @ year @ ''&exam_held='' @ encodedExamHeld)]"

text \<open>Lines 29 to 39: the parsed body becomes a result object, or a step throws.\<close>

definition fromJson :: "string \<Rightarrow> json \<Rightarrow> js_error + single_result" where
  "fromJson regNo jsonData =
     (if jsonData = JNull
      then Inl (JsError ''TypeError'' ''Cannot read properties of null (reading 'status')'')
      else if getProp jsonData ''status'' = Some (JNum 404)
      then Inr (SingleResult ''not_found'' regNo
             (Some (orElse (getProp jsonData ''message'') (JStr ''Record not found.''))) None)
      else if getProp jsonData ''status'' \<noteq> Some (JNum 200) \<or> \<not> truthyOpt (getProp jsonData ''data'')
      then (case (if truthyOpt (getProp jsonData ''message'')
                  then templateOpt (getProp jsonData ''message'')
                  else (case templateOpt (getProp jsonData ''status'') of
                          Inl e \<Rightarrow> Inl e
                        | Inr s \<Rightarrow> Inr (''Status '' @ s))) of
              Inl e \<Rightarrow> Inl e
            | Inr m \<Rightarrow> Inr (SingleResult ''error'' regNo
                        (Some (JStr (''BEU API Data Error: '' @ m))) None))
      else Inr (SingleResult ''success'' regNo None (getProp jsonData ''data'')))"

text \<open>Lines 15 to 39, the body of \<^verbatim>\<open>try\<close>.\<close>

definition fetchTry :: "upstream \<Rightarrow> string \<Rightarrow> string \<Rightarrow> thrown + single_result" where
  "fetchTry upstream target regNo =
     (case upstream target of
        Inl e \<Rightarrow> Inl e
      | Inr apiResponse \<Rightarrow>
          if \<not> resp_ok apiResponse
          then Inr (SingleResult ''error'' regNo
                 (Some (JStr (''BEU API Error: HTTP '' @ toString (int (resp_status apiResponse)))))
                 None)
          else (case resp_json apiResponse of
                  Inl e \<Rightarrow> Inl e
                | Inr jsonData \<Rightarrow>
                    (case fromJson regNo jsonData of
                       Inl e \<Rightarrow> Inl (errorObject e)
                     | Inr val \<Rightarrow> Inr val)))"

text \<open>
  Lines 41 to 45, the \<^verbatim>\<open>catch\<close> clause. Reading \<^verbatim>\<open>error.name\<close> throws when the value caught
  is \<^verbatim>\<open>null\<close> or \<^verbatim>\<open>undefined\<close>, and the template throws when \<^verbatim>\<open>error.message\<close> has no
  string conversion; then the clause itself throws (\<open>Inl\<close>).
\<close>

definition fetchCatch :: "string \<Rightarrow> thrown \<Rightarrow> js_error + single_result" where
  "fetchCatch regNo error =
     (case error of
        ThrownNull \<Rightarrow>
          Inl (JsError ''TypeError'' ''Cannot read properties of null (reading 'name')'')
      | ThrownUndefined \<Rightarrow>
          Inl (JsError ''TypeError'' ''Cannot read properties of undefined (reading 'name')'')
      | Thrown name message \<Rightarrow>
          if name = Some (JStr ''AbortError'')
          then Inr (SingleResult ''error'' regNo (Some (JStr ''Request Timed Out'')) None)
          else (case templateOpt message of
                  Inl e \<Rightarrow> Inl e
                | Inr m \<Rightarrow>
                    Inr (SingleResult ''error'' regNo (Some (JStr (''Fetch Error: '' @ m))) None)))"

text \<open>
  The whole function, threading the list of the calls of \<^verbatim>\<open>fetch\<close> issued so far. Lines
  10 to 12 build a string of strings and call \<^verbatim>\<open>AbortController\<close> and \<^verbatim>\<open>setTimeout\<close>, globals
  of the runtime, and do not throw. The promise is fulfilled with what \<^verbatim>\<open>try\<close> or
  \<^verbatim>\<open>catch\<close> returns and rejected with what \<^verbatim>\<open>catch\<close> throws.
\<close>

definition fetchSingleResult ::
  "upstream \<Rightarrow> string \<Rightarrow> string \<Rightarrow> string \<Rightarrow> string \<Rightarrow> fetch_call list
     \<Rightarrow> single_result settled \<times> fetch_call list" where
  "fetchSingleResult upstream regNo year semesterRoman encodedExamHeld calls =
     (let target = targetUrl regNo year semesterRoman encodedExamHeld;
          call = FetchCall target (fetchHeaders year semesterRoman encodedExamHeld) FETCH_TIMEOUT
      in ((case fetchTry upstream target regNo of
             Inr val \<Rightarrow> Fulfilled val
           | Inl error \<Rightarrow>
               (case fetchCatch regNo error of
                  Inr val \<Rightarrow> Fulfilled val
                | Inl e \<Rightarrow> Rejected e)),
          calls @ [call]))"

subsection \<open>The handler: requests and responses\<close>

text \<open>
  A request: \<^verbatim>\<open>req.method\<close> and the four query parameters the handler reads, each
  missing (\<open>None\<close>) or given once, a string. The handler on these requests is
  \<open>handler\<close>. A parameter given several times arrives as an array of strings: the handler
  on every request is \<open>handler_any\<close> further down, and the two are the same function
  where no parameter is repeated.
\<close>

datatype request =
  Request (req_method: string) (query_reg_no: "string option") (query_year: "string option")
    (query_semester: "string option") (query_exam_held: "string option")

text \<open>
  What one run of the handler does: the status code, the headers it sets, the body
  (\<^verbatim>\<open>end()\<close> sends none, \<^verbatim>\<open>json(v)\<close> sends \<open>v\<close>) and the calls of \<^verbatim>\<open>fetch\<close> it issued, in
  order.
\<close>

datatype body = NoBody | Json json

datatype outcome =
  Outcome (res_status: nat) (res_headers: "(string \<times> string list) list") (res_body: body)
    (fetched: "fetch_call list")

definition corsHeaders :: "(string \<times> string list) list" where
  "corsHeaders =
     [(''Access-Control-Allow-Origin'', [''*'']),
      (''Access-Control-Allow-Methods'', [''GET, OPTIONS'']),
      (''Access-Control-Allow-Headers'', [''Content-Type''])]"

definition errorBody :: "string \<Rightarrow> body" where
  "errorBody msg = Json (JObj [(''error'', JStr msg)])"

definition badRequest :: "string \<Rightarrow> outcome" where
  "badRequest msg = Outcome 400 corsHeaders (errorBody msg) []"

text \<open>
  \<^verbatim>\<open>romanMap[k]\<close> is truthy for an own key (the values 1 to 8) and for a name that the
  object inherits from \<^verbatim>\<open>Object.prototype\<close>.
\<close>

definition romanMap :: "(string \<times> int) list" where
  "romanMap =
     [(''I'', 1), (''II'', 2), (''III'', 3), (''IV'', 4),
      (''V'', 5), (''VI'', 6), (''VII'', 7), (''VIII'', 8)]"

definition objectPrototypeKeys :: "string list" where
  "objectPrototypeKeys =
     [''constructor'', ''__defineGetter__'', ''__defineSetter__'', ''hasOwnProperty'',
      ''__lookupGetter__'', ''__lookupSetter__'', ''isPrototypeOf'', ''propertyIsEnumerable'',
      ''toString'', ''valueOf'', ''__proto__'', ''toLocaleString'']"

definition romanMapTruthy :: "string \<Rightarrow> bool" where
  "romanMapTruthy k =
     (case map_of romanMap k of
        Some n \<Rightarrow> n \<noteq> 0
      | None \<Rightarrow> k \<in> set objectPrototypeKeys)"

subsection \<open>The batch of registration numbers\<close>

definition suffix :: "int \<Rightarrow> string" where
  "suffix i = (if 900 \<le> i then toString i else padStart 3 CHR ''0'' (toString i))"

text \<open>The loop of lines 96 to 99 (78 to 81 in part_000).\<close>

function registrationLoop :: "string \<Rightarrow> int \<Rightarrow> int \<Rightarrow> string list \<Rightarrow> string list" where
  "registrationLoop prefix i endNum registrationNumbers =
     (if i \<le> endNum
      then registrationLoop prefix (i + 1) endNum (registrationNumbers @ [prefix @ suffix i])
      else registrationNumbers)"
  by pat_completeness auto
termination
  by (relation "measure (\<lambda>(prefix, i, endNum, registrationNumbers). nat (endNum + 1 - i))") auto

declare registrationLoop.simps [simp del]

definition registrationNumbers :: "string \<Rightarrow> int \<Rightarrow> string list" where
  "registrationNumbers prefix startNum =
     (let endNum = startNum + BATCH_SIZE - 1
      in registrationLoop prefix startNum endNum [])"

text \<open>
  \<^verbatim>\<open>registrationNumbers.map(rn => fetchSingleResult(...))\<close> and \<^verbatim>\<open>Promise.allSettled\<close>:
  the calls of \<^verbatim>\<open>fetch\<close> are issued in the order of the array, and the settled results
  are reported in the order of the array.
\<close>

fun fetchAll ::
  "upstream \<Rightarrow> string \<Rightarrow> string \<Rightarrow> string \<Rightarrow> string list \<Rightarrow> fetch_call list
     \<Rightarrow> single_result settled list \<times> fetch_call list" where
  "fetchAll upstream year semesterRoman encodedExamHeld [] calls = ([], calls)"
| "fetchAll upstream year semesterRoman encodedExamHeld (rn # rest) calls =
     (let (result, calls1) = fetchSingleResult upstream rn year semesterRoman encodedExamHeld calls;
          (results, calls2) = fetchAll upstream year semesterRoman encodedExamHeld rest calls1
      in (result # results, calls2))"

text \<open>
  The callback of \<^verbatim>\<open>resultsSettled.map\<close>, lines 108 to 125. \<open>attempted\<close> is
  \<^verbatim>\<open>registrationNumbers[index]\<close>, \<^verbatim>\<open>undefined\<close> beyond the array. \<^verbatim>\<open>delete val.data.k\<close> throws
  when \<^verbatim>\<open>val.data\<close> is \<^verbatim>\<open>undefined\<close> or \<^verbatim>\<open>null\<close>. A property whose value is \<^verbatim>\<open>undefined\<close> is
  left out of the JSON sent.
\<close>

definition toItem :: "string option \<Rightarrow> single_result settled \<Rightarrow> js_error + json" where
  "toItem attempted result =
     (case result of
        Fulfilled val \<Rightarrow>
          if val_status val = ''success'' then
            (case val_data val of
               None \<Rightarrow> Inl (JsError ''TypeError'' ''Cannot convert undefined or null to object'')
             | Some d \<Rightarrow>
                 if d = JNull
                 then Inl (JsError ''TypeError'' ''Cannot convert undefined or null to object'')
                 else Inr (JObj [(''regNo'', JStr (val_regNo val)),
                                 (''status'', JStr ''success''),
                                 (''data'', deleteProp ''mother_name'' (deleteProp ''father_name'' d))]))
          else if val_status val = ''not_found'' then
            Inr (JObj [(''regNo'', JStr (val_regNo val)),
                       (''status'', JStr ''Record not found'')])
          else
            Inr (JObj [(''regNo'', JStr (val_regNo val)),
                       (''status'', JStr ''Error fetching result (temporary)''),
                       (''reason'', orElse (val_reason val) (JStr ''Unknown error''))])
      | Rejected e \<Rightarrow>
          Inr (JObj ((case attempted of None \<Rightarrow> [] | Some a \<Rightarrow> [(''regNo'', JStr a)])
                     @ [(''status'', JStr ''Error fetching result (temporary)''),
                        (''reason'', JStr ''Promise rejected'')])))"

definition attemptedAt :: "string list \<Rightarrow> nat \<Rightarrow> string option" where
  "attemptedAt numbers index = (if index < length numbers then Some (numbers ! index) else None)"

fun mapSettled :: "string list \<Rightarrow> nat \<Rightarrow> single_result settled list \<Rightarrow> js_error + json list" where
  "mapSettled numbers index [] = Inr []"
| "mapSettled numbers index (result # rest) =
     (case toItem (attemptedAt numbers index) result of
        Inl e \<Rightarrow> Inl e
      | Inr item \<Rightarrow>
          (case mapSettled numbers (Suc index) rest of
             Inl e \<Rightarrow> Inl e
           | Inr items \<Rightarrow> Inr (item # items)))"

text \<open>
  Lines 92 to 130 of result.js, which are lines 75 to 111 of part_000 up to layout and
  one pair of parentheses: build the numbers, fetch them all, shape the items; an
  exception in the shaping is caught and answered with 500.
\<close>

definition batchPhase :: "upstream \<Rightarrow> string \<Rightarrow> int \<Rightarrow> string \<Rightarrow> string \<Rightarrow> string \<Rightarrow> outcome" where
  "batchPhase upstream prefix startNum year normalizedSemester exam_held =
     (let encodedExamHeld = encodeURIComponent exam_held;
          numbers = registrationNumbers prefix startNum;
          (resultsSettled, calls) =
             fetchAll upstream year normalizedSemester encodedExamHeld numbers []
      in case mapSettled numbers 0 resultsSettled of
           Inr batchResponse \<Rightarrow> Outcome 200 corsHeaders (Json (JArr batchResponse)) calls
         | Inl err \<Rightarrow>
             Outcome 500 corsHeaders
               (Json (JObj [(''error'', JStr ''Server error processing the batch.''),
                            (''details'', JStr (err_message err))]))
               calls)"

subsection \<open>The handler of result.js\<close>

definition handler :: "upstream \<Rightarrow> request \<Rightarrow> outcome" where
  \<open>handler upstream req =
     (if req_method req = ''OPTIONS'' then Outcome 204 corsHeaders NoBody []
      else if req_method req \<noteq> ''GET'' then
        Outcome 405 (corsHeaders @ [(''Allow'', [''GET'', ''OPTIONS''])])
          (errorBody (''Method '' @ req_method req @ '' Not Allowed'')) []
      else
        (case query_reg_no req of
           None \<Rightarrow> badRequest ''Invalid parameter. Use "reg_no" with a full 11-digit number.''
         | Some reg_no \<Rightarrow>
        if reg_no = [] \<or> \<not> test_digits11 reg_no
        then badRequest ''Invalid parameter. Use "reg_no" with a full 11-digit number.''
        else
        (case query_year req of
           None \<Rightarrow> badRequest ''Missing or invalid "year" parameter.''
         | Some year \<Rightarrow>
        if year = [] \<or> parseInt year None = None
        then badRequest ''Missing or invalid "year" parameter.''
        else
        (case map_option toUpperCase (query_semester req) of
           None \<Rightarrow> badRequest ''Missing or invalid "semester" parameter (use Roman numerals I-VIII).''
         | Some normalizedSemester \<Rightarrow>
        if normalizedSemester = [] \<or> \<not> romanMapTruthy normalizedSemester
        then badRequest ''Missing or invalid "semester" parameter (use Roman numerals I-VIII).''
        else
        (case query_exam_held req of
           None \<Rightarrow> badRequest ''Missing "exam_held" parameter.''
         | Some exam_held \<Rightarrow>
        if exam_held = [] then badRequest ''Missing "exam_held" parameter.''
        else
        (case parseInt (slice_back reg_no) (Some 10) of
           None \<Rightarrow> badRequest ''Could not parse starting number from reg_no.''
         | Some startNum \<Rightarrow>
             batchPhase upstream (slice_front reg_no) startNum year normalizedSemester
               exam_held))))))\<close>

subsection \<open>The handler of result.js on every query\<close>

text \<open>
  A parameter of \<^verbatim>\<open>req.query\<close>: \<^verbatim>\<open>undefined\<close> when absent, a string when given once, an
  array of the strings when given two or more times.
\<close>

datatype query_value = Absent | Once string | Repeated string string "string list"

datatype any_request =
  AnyRequest (any_method: string) (any_reg_no: query_value) (any_year: query_value)
    (any_semester: query_value) (any_exam_held: query_value)

text \<open>\<^verbatim>\<open>Array.prototype.join\<close> with a comma, which is how an array of strings becomes a string.\<close>

fun joinComma :: "string list \<Rightarrow> string" where
  "joinComma [] = []"
| "joinComma [x] = x"
| "joinComma (x # y # zs) = x @ '','' @ joinComma (y # zs)"

text \<open>\<^verbatim>\<open>!v\<close>: an array is truthy, also an empty one.\<close>

definition falsy :: "query_value \<Rightarrow> bool" where
  "falsy v = (case v of Absent \<Rightarrow> True | Once s \<Rightarrow> s = [] | Repeated a b rest \<Rightarrow> False)"

text \<open>
  The string that \<^verbatim>\<open>RegExp.test\<close>, \<^verbatim>\<open>parseInt\<close>, a template and \<^verbatim>\<open>encodeURIComponent\<close>
  make of their argument.
\<close>

definition stringOfValue :: "query_value \<Rightarrow> string" where
  "stringOfValue v =
     (case v of
        Absent \<Rightarrow> ''undefined''
      | Once s \<Rightarrow> s
      | Repeated a b rest \<Rightarrow> joinComma (a # b # rest))"

text \<open>
  \<^verbatim>\<open>v.slice(0, -3)\<close> and \<^verbatim>\<open>v.slice(-3)\<close>, as strings: on an array they take elements, and
  the array taken is joined where it is used; on \<^verbatim>\<open>undefined\<close> the call throws.
\<close>

definition sliceFrontValue :: "query_value \<Rightarrow> js_error + string" where
  "sliceFrontValue v =
     (case v of
        Absent \<Rightarrow>
          Inl (JsError ''TypeError'' ''Cannot read properties of undefined (reading 'slice')'')
      | Once s \<Rightarrow> Inr (slice_front s)
      | Repeated a b rest \<Rightarrow> Inr (joinComma (take (length (a # b # rest) - 3) (a # b # rest))))"

definition sliceBackValue :: "query_value \<Rightarrow> js_error + string" where
  "sliceBackValue v =
     (case v of
        Absent \<Rightarrow>
          Inl (JsError ''TypeError'' ''Cannot read properties of undefined (reading 'slice')'')
      | Once s \<Rightarrow> Inr (slice_back s)
      | Repeated a b rest \<Rightarrow> Inr (joinComma (drop (length (a # b # rest) - 3) (a # b # rest))))"

text \<open>
  Lines 49 to 131 again, on every query. \<^verbatim>\<open>semester?.toUpperCase()\<close> in line 75 guards
  \<^verbatim>\<open>undefined\<close> only: an array has no method \<^verbatim>\<open>toUpperCase\<close>, and the call throws outside
  any \<^verbatim>\<open>try\<close>, so the handler's promise rejects (\<open>Inl\<close>) with no response sent.
\<close>

definition handler_any :: "upstream \<Rightarrow> any_request \<Rightarrow> js_error + outcome" where
  \<open>handler_any upstream req =
     (if any_method req = ''OPTIONS'' then Inr (Outcome 204 corsHeaders NoBody [])
      else if any_method req \<noteq> ''GET'' then
        Inr (Outcome 405 (corsHeaders @ [(''Allow'', [''GET'', ''OPTIONS''])])
               (errorBody (''Method '' @ any_method req @ '' Not Allowed'')) [])
      else
        (let reg_no = any_reg_no req;
             year = any_year req;
             semester = any_semester req;
             exam_held = any_exam_held req
         in
        if falsy reg_no \<or> \<not> test_digits11 (stringOfValue reg_no)
        then Inr (badRequest ''Invalid parameter. Use "reg_no" with a full 11-digit number.'')
        else
        if falsy year \<or> parseInt (stringOfValue year) None = None
        then Inr (badRequest ''Missing or invalid "year" parameter.'')
        else
        (case semester of
           Repeated a b rest \<Rightarrow>
             Inl (JsError ''TypeError'' ''semester?.toUpperCase is not a function'')
         | Absent \<Rightarrow>
             Inr (badRequest
                    ''Missing or invalid "semester" parameter (use Roman numerals I-VIII).'')
         | Once s \<Rightarrow>
        (let normalizedSemester = toUpperCase s
         in
        if normalizedSemester = [] \<or> \<not> romanMapTruthy normalizedSemester
        then Inr (badRequest
                    ''Missing or invalid "semester" parameter (use Roman numerals I-VIII).'')
        else
        if falsy exam_held then Inr (badRequest ''Missing "exam_held" parameter.'')
        else
        (case sliceFrontValue reg_no of
           Inl e \<Rightarrow> Inl e
         | Inr prefix \<Rightarrow>
        (case sliceBackValue reg_no of
           Inl e \<Rightarrow> Inl e
         | Inr lastThreeChars \<Rightarrow>
        (case parseInt lastThreeChars (Some 10) of
           None \<Rightarrow> Inr (badRequest ''Could not parse starting number from reg_no.'')
         | Some startNum \<Rightarrow>
             Inr (batchPhase upstream prefix startNum (stringOfValue year) normalizedSemester
                    (stringOfValue exam_held)))))))))\<close>

text \<open>A query with no repeated parameter kept, each array replaced by its string.\<close>

definition flattenValue :: "query_value \<Rightarrow> string option" where
  "flattenValue v =
     (case v of
        Absent \<Rightarrow> None
      | Once s \<Rightarrow> Some s
      | Repeated a b rest \<Rightarrow> Some (joinComma (a # b # rest)))"

definition flatten :: "any_request \<Rightarrow> request" where
  "flatten req =
     Request (any_method req) (flattenValue (any_reg_no req)) (flattenValue (any_year req))
       (flattenValue (any_semester req)) (flattenValue (any_exam_held req))"

definition isRepeated :: "query_value \<Rightarrow> bool" where
  "isRepeated v = (case v of Repeated a b rest \<Rightarrow> True | _ \<Rightarrow> False)"

subsection \<open>The handler of part_000\<close>

text \<open>
  The copy collects a message in \<^verbatim>\<open>validationError\<close> (\<open>None\<close> is \<^verbatim>\<open>null\<close>) with two
  separate \<^verbatim>\<open>if\<close> chains and returns 400 when it is truthy. Past that line a missing
  parameter is read as it is: \<^verbatim>\<open>reg_no.slice\<close> throws on \<^verbatim>\<open>undefined\<close>, a template or
  \<^verbatim>\<open>encodeURIComponent\<close> makes the string \<^verbatim>\<open>undefined\<close> of it. An exception there is not
  caught: the handler's promise rejects (\<open>Inl\<close>).

  The body is written once, with the test of \<^verbatim>\<open>reg_no\<close> as a parameter: the handler of
  part_000 is the body with its own regular expression \<^verbatim>\<open>/^d{11}$/\<close>, and the body with
  \<^verbatim>\<open>/^\d{11}$/\<close> in its place is what the two copies are compared on.
\<close>

definition stringOf :: "string option \<Rightarrow> string" where
  "stringOf v = (case v of None \<Rightarrow> ''undefined'' | Some s \<Rightarrow> s)"

definition part_000_with ::
  "(string \<Rightarrow> bool) \<Rightarrow> upstream \<Rightarrow> request \<Rightarrow> js_error + outcome" where
  \<open>part_000_with test upstream req =
     (if req_method req = ''OPTIONS'' then Inr (Outcome 204 corsHeaders NoBody [])
      else if req_method req \<noteq> ''GET'' then
        Inr (Outcome 405 (corsHeaders @ [(''Allow'', [''GET'', ''OPTIONS''])])
               (errorBody (''Method '' @ req_method req @ '' Not Allowed'')) [])
      else
        (let reg_no = query_reg_no req;
             year = query_year req;
             semester = query_semester req;
             exam_held = query_exam_held req;
             validationError = None;
             validationError =
               (if (case reg_no of None \<Rightarrow> True | Some r \<Rightarrow> r = [] \<or> \<not> test r)
                then Some ''Invalid parameter. Use "reg_no" with full 11-digit number.''
                else if (case year of None \<Rightarrow> True | Some y \<Rightarrow> y = [] \<or> parseInt y None = None)
                then Some ''Missing or invalid "year".''
                else validationError);
             normalizedSemester = map_option toUpperCase semester;
             validationError =
               (if (case normalizedSemester of None \<Rightarrow> True
                    | Some n \<Rightarrow> n = [] \<or> \<not> romanMapTruthy n)
                then Some ''Missing or invalid "semester" (Roman I-VIII).''
                else if (case exam_held of None \<Rightarrow> True | Some e \<Rightarrow> e = [])
                then Some ''Missing "exam_held" parameter.''
                else validationError)
         in if (case validationError of None \<Rightarrow> False | Some msg \<Rightarrow> msg \<noteq> [])
            then Inr (badRequest (stringOf validationError))
            else
              (case reg_no of
                 None \<Rightarrow>
                   Inl (JsError ''TypeError''
                          ''Cannot read properties of undefined (reading 'slice')'')
               | Some r \<Rightarrow>
                   (case parseInt (slice_back r) (Some 10) of
                      None \<Rightarrow> Inr (badRequest ''Failed to parse number from reg_no.'')
                    | Some startNum \<Rightarrow>
                        Inr (batchPhase upstream (slice_front r) startNum (stringOf year)
                               (stringOf normalizedSemester) (stringOf exam_held))))))\<close>

definition handler_part_000 :: "upstream \<Rightarrow> request \<Rightarrow> js_error + outcome" where
  "handler_part_000 = part_000_with test_d11"

subsection \<open>Notions for stating the properties\<close>

text \<open>The call of \<^verbatim>\<open>fetch\<close> that \<^verbatim>\<open>fetchSingleResult\<close> issues for a registration number.\<close>

definition issuedCall :: "string \<Rightarrow> string \<Rightarrow> string \<Rightarrow> string \<Rightarrow> fetch_call" where
  "issuedCall regNo year semesterRoman encodedExamHeld =
     FetchCall (targetUrl regNo year semesterRoman encodedExamHeld)
       (fetchHeaders year semesterRoman encodedExamHeld) FETCH_TIMEOUT"

text \<open>How the promise of \<^verbatim>\<open>fetchSingleResult\<close> settles.\<close>

definition settledResult ::
  "upstream \<Rightarrow> string \<Rightarrow> string \<Rightarrow> string \<Rightarrow> string \<Rightarrow> single_result settled" where
  "settledResult upstream regNo year semesterRoman encodedExamHeld =
     fst (fetchSingleResult upstream regNo year semesterRoman encodedExamHeld [])"

text \<open>The item that the handler makes of the registration number \<open>rn\<close>.\<close>

definition itemFor :: "upstream \<Rightarrow> string \<Rightarrow> string \<Rightarrow> string \<Rightarrow> string \<Rightarrow> json" where
  "itemFor upstream rn year semesterRoman encodedExamHeld =
     (case toItem (Some rn) (settledResult upstream rn year semesterRoman encodedExamHeld) of
        Inr item \<Rightarrow> item
      | Inl e \<Rightarrow> JNull)"

text \<open>
  What a fulfilled promise of \<^verbatim>\<open>fetchSingleResult\<close> is shown to hold: the number asked
  for, one of three statuses, truthy data with \<^verbatim>\<open>success\<close>, and with \<^verbatim>\<open>error\<close> a reason that
  is a non-empty string other than the reason of the handler's branch for rejected
  promises.
\<close>

definition wellFormed :: "string \<Rightarrow> single_result \<Rightarrow> bool" where
  "wellFormed rn v =
     (val_regNo v = rn \<and>
      (val_status v = ''success'' \<and> (\<exists>d. val_data v = Some d \<and> truthy d) \<or>
       val_status v = ''not_found'' \<or>
       val_status v = ''error'' \<and>
         (\<exists>m. val_reason v = Some (JStr m) \<and> m \<noteq> [] \<and> m \<noteq> ''Promise rejected'')))"

text \<open>The items of a response whose body is a JSON array.\<close>

definition bodyItems :: "outcome \<Rightarrow> json list" where
  "bodyItems out = (case res_body out of Json (JArr items) \<Rightarrow> items | _ \<Rightarrow> [])"

text \<open>
  The query of a request that passes validation, in the words of the specification:
  \<^verbatim>\<open>reg_no\<close> is a string of exactly 11 decimal digits, \<^verbatim>\<open>year\<close> parses as an integer,
  \<^verbatim>\<open>semester\<close> is, after uppercasing, one of the Roman numerals I to VIII, and
  \<^verbatim>\<open>exam_held\<close> is present and not empty.
\<close>

definition validQuery :: "request \<Rightarrow> bool" where
  "validQuery req =
     ((case query_reg_no req of None \<Rightarrow> False | Some r \<Rightarrow> length r = 11 \<and> list_all isDigit r) \<and>
      (case query_year req of None \<Rightarrow> False | Some y \<Rightarrow> parseInt y None \<noteq> None) \<and>
      (case query_semester req of
         None \<Rightarrow> False
       | Some s \<Rightarrow> toUpperCase s \<in> set [''I'', ''II'', ''III'', ''IV'', ''V'', ''VI'', ''VII'', ''VIII'']) \<and>
      (case query_exam_held req of None \<Rightarrow> False | Some e \<Rightarrow> e \<noteq> []))"

text \<open>The integer value of the last three digits of an 11-digit string.\<close>

definition lastThree :: "string \<Rightarrow> nat" where
  "lastThree r = 100 * digitValue (r ! 8) + 10 * digitValue (r ! 9) + digitValue (r ! 10)"

text \<open>
  The shape of an item of the client response, in the words of the specification: a
  \<^verbatim>\<open>regNo\<close> field, and a \<^verbatim>\<open>status\<close> field that is one of three labels; an item labelled
  \<^verbatim>\<open>success\<close> carries \<^verbatim>\<open>data\<close>, an item labelled as an error carries a string \<^verbatim>\<open>reason\<close>.
\<close>

definition itemShape :: "json \<Rightarrow> bool" where
  "itemShape item =
     ((case getProp item ''regNo'' of Some (JStr rn) \<Rightarrow> True | _ \<Rightarrow> False) \<and>
      (case getProp item ''status'' of
         Some (JStr st) \<Rightarrow>
           (st = ''success'' \<and> getProp item ''data'' \<noteq> None) \<or>
           st = ''Record not found'' \<or>
           (st = ''Error fetching result (temporary)'' \<and>
            (case getProp item ''reason'' of Some (JStr m) \<Rightarrow> True | _ \<Rightarrow> False))
       | _ \<Rightarrow> False))"

subsection \<open>Sample inputs\<close>

text \<open>A request for the batch 21105111001 to 21105111005, and one that reaches 1000.\<close>

definition sampleRequest :: request where
  "sampleRequest =
     Request ''GET'' (Some ''21105111001'') (Some ''2024'') (Some ''iii'') (Some ''Nov/2024'')"

definition lateRequest :: request where
  "lateRequest =
     Request ''GET'' (Some ''21105111998'') (Some ''2024'') (Some ''III'') (Some ''Nov/2024'')"

text \<open>A request whose \<^verbatim>\<open>reg_no\<close> has ten digits only.\<close>

definition shortRequest :: request where
  "shortRequest =
     Request ''GET'' (Some ''2110511100'') (Some ''2024'') (Some ''iii'') (Some ''Nov/2024'')"

text \<open>An upstream that has a record for every registration number.\<close>

definition sampleRecord :: json where
  "sampleRecord =
     JObj [(''status'', JNum 200),
           (''data'', JObj [(''name'', JStr ''A''), (''father_name'', JStr ''B''),
                            (''mother_name'', JStr ''C''), (''sgpa'', JNum 8)])]"

definition sampleUpstream :: upstream where
  "sampleUpstream target = Inr (Response True 200 (Inr sampleRecord))"

text \<open>An upstream where every call runs into the abort timer.\<close>

definition slowUpstream :: upstream where
  "slowUpstream target =
     Inl (Thrown (Some (JStr ''AbortError'')) (Some (JStr ''The user aborted a request.'')))"

text \<open>An upstream that breaks the contract of the library: every call rejects with \<^verbatim>\<open>null\<close>.\<close>

definition nullUpstream :: upstream where
  "nullUpstream target = Inl ThrownNull"

text \<open>A request that gives \<^verbatim>\<open>semester\<close> twice: \<^verbatim>\<open>semester=I&semester=II\<close>.\<close>

definition repeatedSemester :: any_request where
  "repeatedSemester =
     AnyRequest ''GET'' (Once ''21105111001'') (Once ''2024'') (Repeated ''I'' ''II'' [])
       (Once ''Nov/2024'')"



section \<open>Properties\<close>

subsection \<open>Characters, digits and number strings\<close>

lemma lower_code: "isLower c \<Longrightarrow> 97 \<le> (of_char c :: nat)"
  unfolding isLower_def by auto

lemma upper_code: "isUpper c \<Longrightarrow> (of_char c :: nat) \<le> 90"
  unfolding isUpper_def by auto

lemma upperChar_cases: "upperChar c = c \<and> \<not> isLower c \<or> isUpper (upperChar c)"
proof (cases "map_of (zip ''abcdefghijklmnopqrstuvwxyz'' ''ABCDEFGHIJKLMNOPQRSTUVWXYZ'') c")
  case None
  then have "c \<notin> set ''abcdefghijklmnopqrstuvwxyz''"
    by (simp only: map_of_eq_None_iff map_fst_zip length_Cons list.size, simp)
  with None show ?thesis by (simp add: upperChar_def isLower_def)
next
  case (Some u)
  then have "u \<in> set ''ABCDEFGHIJKLMNOPQRSTUVWXYZ''"
    by (meson in_set_zipE map_of_SomeD)
  with Some show ?thesis by (simp add: upperChar_def isUpper_def)
qed

lemma not_lower_upperChar: "\<not> isLower (upperChar c)"
  using upperChar_cases [of c] lower_code [of "upperChar c"] upper_code [of "upperChar c"]
  by auto

lemma not_lower_toUpperCase: "c \<in> set (toUpperCase s) \<Longrightarrow> \<not> isLower c"
  by (auto simp: toUpperCase_def not_lower_upperChar)

lemma isDigit_facts:
  assumes "isDigit c"
  shows "digitValue c < 10" "\<not> isWhiteSpace c" "c \<noteq> CHR ''+''" "c \<noteq> CHR ''-''"
    "''0123456789'' ! digitValue c = c"
  using assms by (auto simp: isDigit_def digitValue_def isWhiteSpace_def)

lemma slice_back_11:
  assumes "length r = 11"
  shows "slice_back r = [r ! 8, r ! 9, r ! 10]"
proof -
  have "drop 8 r = r ! 8 # drop 9 r" "drop 9 r = r ! 9 # drop 10 r" "drop 10 r = r ! 10 # drop 11 r"
    using assms Cons_nth_drop_Suc [of 8 r] Cons_nth_drop_Suc [of 9 r] Cons_nth_drop_Suc [of 10 r]
    by simp_all
  with assms show ?thesis by (simp add: slice_back_def)
qed

lemma slice_front_11: "length r = 11 \<Longrightarrow> slice_front r = take 8 r"
  by (simp add: slice_front_def)

lemma parseInt_digits3:
  assumes "isDigit a" "isDigit b" "isDigit c"
  shows "parseInt [a, b, c] (Some 10) = Some (int (100 * digitValue a + 10 * digitValue b + digitValue c))"
  using assms by (simp add: parseInt_def Let_def isDigit_facts)

subsection \<open>The loop that builds the batch\<close>

lemma registrationLoop_eq:
  "registrationLoop prefix i endNum acc = acc @ map (\<lambda>j. prefix @ suffix j) [i..endNum]"
proof (induction prefix i endNum acc rule: registrationLoop.induct)
  case (1 prefix i endNum acc)
  show ?case
  proof (cases "i \<le> endNum")
    case True
    with 1 show ?thesis
      by (subst registrationLoop.simps) (simp add: upto_rec1 [of i endNum])
  next
    case False
    then show ?thesis by (subst registrationLoop.simps) simp
  qed
qed

lemma upto_five: "[n..n + 4] = [n, n + 1, n + 2, n + 3, n + 4]" for n :: int
  by (simp add: upto_rec1)

lemma registrationNumbers_eq:
  "registrationNumbers prefix n = map (\<lambda>j. prefix @ suffix j) [n, n + 1, n + 2, n + 3, n + 4]"
proof -
  have "n + BATCH_SIZE - 1 = n + 4" by (simp add: BATCH_SIZE_def)
  then show ?thesis
    unfolding registrationNumbers_def Let_def
    by (simp only: registrationLoop_eq upto_five append_Nil)
qed

subsection \<open>Fetching and shaping, in closed form\<close>

lemma fetchSingleResult_eq:
  "fetchSingleResult up rn y s e calls =
     (settledResult up rn y s e, calls @ [issuedCall rn y s e])"
  by (simp add: fetchSingleResult_def settledResult_def issuedCall_def Let_def)

lemma fetchAll_eq:
  "fetchAll up y s e rns calls =
     (map (\<lambda>rn. settledResult up rn y s e) rns,
      calls @ map (\<lambda>rn. issuedCall rn y s e) rns)"
  by (induction rns arbitrary: calls) (simp_all add: fetchSingleResult_eq)

lemma settledResult_cases:
  "settledResult up rn y s e =
     (case fetchTry up (targetUrl rn y s e) rn of
        Inr val \<Rightarrow> Fulfilled val
      | Inl error \<Rightarrow>
          (case fetchCatch rn error of Inr val \<Rightarrow> Fulfilled val | Inl err \<Rightarrow> Rejected err))"
  by (simp add: settledResult_def fetchSingleResult_def Let_def)

lemma fromJson_shape:
  assumes "fromJson rn j = Inr v"
  shows "val_regNo v = rn"
    and "val_status v = ''success'' \<or> val_status v = ''not_found'' \<or> val_status v = ''error''"
    and "val_status v = ''success'' \<Longrightarrow> \<exists>d. val_data v = Some d \<and> truthy d"
    and "val_status v = ''error'' \<Longrightarrow> \<exists>m. val_reason v = Some (JStr m) \<and> m \<noteq> []"
  using assms
  by (auto simp: fromJson_def truthyOpt_def split: if_splits sum.splits option.splits)

lemma fromJson_error_reason:
  assumes "fromJson rn j = Inr v" "val_status v = ''error''"
  shows "\<exists>m. val_reason v = Some (JStr (''BEU API Data Error: '' @ m))"
  using assms
  by (auto simp: fromJson_def split: if_splits sum.splits)

lemma fromJson_wellFormed:
  assumes "fromJson rn j = Inr v"
  shows "wellFormed rn v"
proof -
  note sh = fromJson_shape [OF assms]
  from sh(2) consider "val_status v = ''success''" | "val_status v = ''not_found''"
    | "val_status v = ''error''" by blast
  then show ?thesis
  proof cases
    case 1
    with sh(1,3) show ?thesis by (simp add: wellFormed_def)
  next
    case 2
    with sh(1) show ?thesis by (simp add: wellFormed_def)
  next
    case 3
    from fromJson_error_reason [OF assms 3] obtain m where
      "val_reason v = Some (JStr (''BEU API Data Error: '' @ m))" by blast
    with 3 sh(1) show ?thesis by (simp add: wellFormed_def)
  qed
qed

lemma fetchCatch_wellFormed:
  assumes "fetchCatch rn t = Inr v"
  shows "wellFormed rn v"
proof (cases t)
  case (Thrown name message)
  show ?thesis
  proof (cases "name = Some (JStr ''AbortError'')")
    case True
    with assms Thrown show ?thesis by (auto simp: fetchCatch_def wellFormed_def)
  next
    case False
    with assms Thrown obtain m where "templateOpt message = Inr m"
      "v = SingleResult ''error'' rn (Some (JStr (''Fetch Error: '' @ m))) None"
      by (auto simp: fetchCatch_def split: sum.splits)
    then show ?thesis by (simp add: wellFormed_def)
  qed
next
  case ThrownNull
  with assms show ?thesis by (simp add: fetchCatch_def)
next
  case ThrownUndefined
  with assms show ?thesis by (simp add: fetchCatch_def)
qed

lemma fetchTry_wellFormed:
  assumes "fetchTry up target rn = Inr v"
  shows "wellFormed rn v"
proof (cases "up target")
  case (Inl t)
  with assms show ?thesis by (simp add: fetchTry_def)
next
  case (Inr apiResponse)
  show ?thesis
  proof (cases "resp_ok apiResponse")
    case False
    with assms Inr have
      "v = SingleResult ''error'' rn
             (Some (JStr (''BEU API Error: HTTP '' @ toString (int (resp_status apiResponse))))) None"
      by (simp add: fetchTry_def)
    then show ?thesis by (simp add: wellFormed_def)
  next
    case True
    with assms Inr obtain j where "fromJson rn j = Inr v"
      by (auto simp: fetchTry_def split: sum.splits)
    then show ?thesis by (rule fromJson_wellFormed)
  qed
qed

lemma settled_wellFormed:
  assumes "settledResult up rn y s e = Fulfilled v"
  shows "wellFormed rn v"
proof (cases "fetchTry up (targetUrl rn y s e) rn")
  case (Inr val)
  with assms have "val = v" by (simp add: settledResult_cases)
  with Inr show ?thesis by (simp add: fetchTry_wellFormed)
next
  case (Inl t)
  with assms have "fetchCatch rn t = Inr v"
    by (simp add: settledResult_cases split: sum.splits)
  then show ?thesis by (rule fetchCatch_wellFormed)
qed

lemma truthy_not_null: "truthy d \<Longrightarrow> d \<noteq> JNull"
  by auto

lemma toItem_success:
  assumes "truthy d"
  shows "toItem a (Fulfilled (SingleResult ''success'' rn x (Some d))) =
     Inr (JObj [(''regNo'', JStr rn), (''status'', JStr ''success''),
                (''data'', deleteProp ''mother_name'' (deleteProp ''father_name'' d))])"
  using truthy_not_null [OF assms] by (simp add: toItem_def)

lemma toItem_not_found:
  "toItem a (Fulfilled (SingleResult ''not_found'' rn x dd)) =
     Inr (JObj [(''regNo'', JStr rn), (''status'', JStr ''Record not found'')])"
  by (simp add: toItem_def)

lemma toItem_error:
  assumes "m \<noteq> []"
  shows "toItem a (Fulfilled (SingleResult ''error'' rn (Some (JStr m)) dd)) =
     Inr (JObj [(''regNo'', JStr rn), (''status'', JStr ''Error fetching result (temporary)''),
                (''reason'', JStr m)])"
  using assms by (simp add: toItem_def orElse_def)

lemma toItem_rejected:
  "toItem (Some rn) (Rejected err) =
     Inr (JObj [(''regNo'', JStr rn), (''status'', JStr ''Error fetching result (temporary)''),
                (''reason'', JStr ''Promise rejected'')])"
  by (simp add: toItem_def)

lemma toItem_wellFormed:
  assumes "wellFormed rn v"
  shows "\<exists>item. toItem a (Fulfilled v) = Inr item \<and>
           getProp item ''regNo'' = Some (JStr rn) \<and> itemShape item \<and>
           getProp item ''reason'' \<noteq> Some (JStr ''Promise rejected'')"
proof -
  obtain st rg rs dt where v: "v = SingleResult st rg rs dt" by (cases v)
  from assms have rg: "rg = rn" by (simp add: wellFormed_def v)
  from assms have
    "st = ''success'' \<and> (\<exists>d. dt = Some d \<and> truthy d) \<or> st = ''not_found'' \<or>
     st = ''error'' \<and> (\<exists>m. rs = Some (JStr m) \<and> m \<noteq> [] \<and> m \<noteq> ''Promise rejected'')"
    by (simp add: wellFormed_def v)
  then show ?thesis
  proof (elim disjE conjE exE)
    fix d assume "st = ''success''" "dt = Some d" "truthy d"
    then show ?thesis
      unfolding v rg by (simp add: toItem_success itemShape_def)
  next
    assume "st = ''not_found''"
    then show ?thesis
      unfolding v rg by (simp add: toItem_not_found itemShape_def)
  next
    fix m assume "st = ''error''" "rs = Some (JStr m)" "m \<noteq> []" "m \<noteq> ''Promise rejected''"
    then show ?thesis
      unfolding v rg by (simp add: toItem_error itemShape_def)
  qed
qed

lemma toItem_settled:
  "\<exists>item. toItem (Some rn) (settledResult up rn y s e) = Inr item \<and>
     getProp item ''regNo'' = Some (JStr rn) \<and> itemShape item \<and>
     ((\<exists>v. settledResult up rn y s e = Fulfilled v) \<longrightarrow>
        getProp item ''reason'' \<noteq> Some (JStr ''Promise rejected''))"
proof (cases "settledResult up rn y s e")
  case (Rejected err)
  then show ?thesis by (simp add: toItem_rejected itemShape_def)
next
  case (Fulfilled v)
  from toItem_wellFormed [OF settled_wellFormed [OF Fulfilled], of "Some rn"]
  show ?thesis unfolding Fulfilled by auto
qed

lemma toItem_itemFor:
  "toItem (Some rn) (settledResult up rn y s e) = Inr (itemFor up rn y s e)"
proof -
  from toItem_settled [of rn up y s e] obtain item where
    "toItem (Some rn) (settledResult up rn y s e) = Inr item" by blast
  then show ?thesis by (simp add: itemFor_def)
qed

lemma item_regNo: "getProp (itemFor up rn y s e) ''regNo'' = Some (JStr rn)"
  using toItem_settled [of rn up y s e] by (auto simp: toItem_itemFor)

lemma item_shape: "itemShape (itemFor up rn y s e)"
  using toItem_settled [of rn up y s e] by (auto simp: toItem_itemFor)

lemma item_not_rejected:
  assumes "\<exists>v. settledResult up rn y s e = Fulfilled v"
  shows "getProp (itemFor up rn y s e) ''reason'' \<noteq> Some (JStr ''Promise rejected'')"
  using toItem_settled [of rn up y s e] assms by (auto simp: toItem_itemFor)

lemma attemptedAt_middle: "attemptedAt (pre @ x # xs) (length pre) = Some x"
  by (simp add: attemptedAt_def)

lemma mapSettled_items:
  "mapSettled (pre @ xs) (length pre) (map (\<lambda>rn. settledResult up rn y s e) xs) =
     Inr (map (\<lambda>rn. itemFor up rn y s e) xs)"
proof (induction xs arbitrary: pre)
  case Nil
  show ?case by simp
next
  case (Cons x xs)
  have "mapSettled ((pre @ [x]) @ xs) (length (pre @ [x]))
          (map (\<lambda>rn. settledResult up rn y s e) xs) =
        Inr (map (\<lambda>rn. itemFor up rn y s e) xs)"
    by (rule Cons.IH)
  then have "mapSettled (pre @ x # xs) (Suc (length pre))
          (map (\<lambda>rn. settledResult up rn y s e) xs) =
        Inr (map (\<lambda>rn. itemFor up rn y s e) xs)"
    by simp
  then show ?case
    by (simp add: attemptedAt_middle toItem_itemFor)
qed

lemma batchPhase_eq:
  "batchPhase up p n y s e =
     Outcome 200 corsHeaders
       (Json (JArr (map (\<lambda>rn. itemFor up rn y s (encodeURIComponent e))
               (registrationNumbers p n))))
       (map (\<lambda>rn. issuedCall rn y s (encodeURIComponent e)) (registrationNumbers p n))"
  using mapSettled_items [of "[]" "registrationNumbers p n" up y s "encodeURIComponent e"]
  by (simp add: batchPhase_def Let_def fetchAll_eq)

subsection \<open>The semester table\<close>

lemma proto_keys_lower: "list_all (list_ex isLower) objectPrototypeKeys"
  by (simp add: objectPrototypeKeys_def isLower_def)

lemma romanMapTruthy_upper:
  "romanMapTruthy (toUpperCase s) \<longleftrightarrow>
     toUpperCase s \<in> set [''I'', ''II'', ''III'', ''IV'', ''V'', ''VI'', ''VII'', ''VIII'']"
proof
  assume t: "romanMapTruthy (toUpperCase s)"
  show "toUpperCase s \<in> set [''I'', ''II'', ''III'', ''IV'', ''V'', ''VI'', ''VII'', ''VIII'']"
  proof (cases "map_of romanMap (toUpperCase s)")
    case None
    with t have "toUpperCase s \<in> set objectPrototypeKeys" by (simp add: romanMapTruthy_def)
    with proto_keys_lower have "list_ex isLower (toUpperCase s)" by (simp only: list_all_iff)
    then have False using not_lower_toUpperCase [of _ s] by (auto simp: list_ex_iff)
    then show ?thesis ..
  next
    case (Some n)
    then have "(toUpperCase s, n) \<in> set romanMap" by (rule map_of_SomeD)
    then show ?thesis by (auto simp: romanMap_def)
  qed
next
  assume "toUpperCase s \<in> set [''I'', ''II'', ''III'', ''IV'', ''V'', ''VI'', ''VII'', ''VIII'']"
  then have "romanMapTruthy (toUpperCase s)"
    by (auto simp: romanMapTruthy_def romanMap_def)
  then show "romanMapTruthy (toUpperCase s)" .
qed


subsection \<open>The start number and the year\<close>

lemma parseInt_empty: "parseInt [] radix = None"
  by (simp add: parseInt_def)

lemma parseInt_lastThree:
  assumes "length r = 11" "list_all isDigit r"
  shows "parseInt (slice_back r) (Some 10) = Some (int (lastThree r))"
proof -
  have "isDigit (r ! 8)" "isDigit (r ! 9)" "isDigit (r ! 10)"
    using assms by (simp_all add: list_all_length)
  then show ?thesis
    using assms(1) by (simp only: slice_back_11 parseInt_digits3 lastThree_def)
qed

lemma lastThree_bound:
  assumes "length r = 11" "list_all isDigit r"
  shows "lastThree r \<le> 999"
proof -
  have "isDigit (r ! 8)" "isDigit (r ! 9)" "isDigit (r ! 10)"
    using assms by (simp_all add: list_all_length)
  then have "digitValue (r ! 8) < 10" "digitValue (r ! 9) < 10" "digitValue (r ! 10) < 10"
    by (simp_all add: isDigit_facts)
  then show ?thesis by (simp add: lastThree_def)
qed

lemma parseInt_digits:
  assumes "y \<noteq> []" "list_all isDigit y"
  shows "\<exists>n. parseInt y None = Some n \<and> 0 \<le> n"
proof -
  from assms obtain c cs where y: "y = c # cs" and c: "isDigit c" and cs: "list_all isDigit cs"
    by (cases y) auto
  have w: "dropWhile isWhiteSpace y = y" using c by (simp add: y isDigit_facts)
  have sign: "take 1 y \<noteq> ''+''" "take 1 y \<noteq> ''-''" using c by (simp_all add: y isDigit_facts)
  have hex: "take 2 y \<noteq> ''0x''" "take 2 y \<noteq> ''0X''"
    using cs by (cases cs; auto simp: y isDigit_def)+
  have t: "takeWhile (\<lambda>c. digitValue c < 10) y = y"
    using assms(2) by (simp add: takeWhile_eq_all_conv list_all_iff isDigit_facts)
  show ?thesis
    using assms(1) w sign hex by (simp add: parseInt_def Let_def t)
qed

lemma parseInt_prefix_example:
  "parseInt ''2024abc'' None = Some 2024" "parseInt ''0x7E8'' None = Some 2024"
  "parseInt ''year'' None = None"
  by code_simp+

subsection \<open>The two outcomes of validation\<close>

lemma handler_valid:
  assumes "req_method req = ''GET''" "validQuery req"
  shows "\<exists>r y s e. query_reg_no req = Some r \<and> query_year req = Some y \<and>
           query_semester req = Some s \<and> query_exam_held req = Some e \<and>
           length r = 11 \<and> list_all isDigit r \<and>
           handler up req = batchPhase up (take 8 r) (int (lastThree r)) y (toUpperCase s) e"
proof -
  from assms(2) obtain r y s e where
    q: "query_reg_no req = Some r" "query_year req = Some y"
       "query_semester req = Some s" "query_exam_held req = Some e"
    and r: "length r = 11" "list_all isDigit r"
    and y: "\<exists>v. parseInt y None = Some v"
    and s: "toUpperCase s \<in> set [''I'', ''II'', ''III'', ''IV'', ''V'', ''VI'', ''VII'', ''VIII'']"
    and e: "e \<noteq> []"
    by (auto simp: validQuery_def split: option.splits)
  have r0: "r \<noteq> []" "test_digits11 r" using r by (auto simp: test_digits11_def)
  from y obtain v where v: "parseInt y None = Some v" by blast
  have y0: "y \<noteq> []" using v parseInt_empty [of None] by auto
  have s0: "toUpperCase s \<noteq> []" using s by auto
  have s1: "romanMapTruthy (toUpperCase s)" using s by (simp only: romanMapTruthy_upper)
  have "handler up req = batchPhase up (take 8 r) (int (lastThree r)) y (toUpperCase s) e"
    using assms(1) q r0 y0 v s0 s1 e parseInt_lastThree [OF r] slice_front_11 [OF r(1)]
    by (simp add: handler_def)
  with q r show ?thesis by blast
qed

lemma handler_invalid:
  assumes g: "req_method req = ''GET''" and inv: "\<not> validQuery req"
  shows "\<exists>msg. \<forall>up. handler up req = badRequest msg"
proof (cases "query_reg_no req")
  case None
  then show ?thesis by (auto simp: handler_def g)
next
  case (Some r)
  note r = this
  show ?thesis
  proof (cases "r = [] \<or> \<not> test_digits11 r")
    case True
    with r show ?thesis by (auto simp: handler_def g)
  next
    case rok: False
    show ?thesis
    proof (cases "query_year req")
      case None
      with r rok show ?thesis by (auto simp: handler_def g)
    next
      case (Some y)
      note y = this
      show ?thesis
      proof (cases "y = [] \<or> parseInt y None = None")
        case True
        with r rok y show ?thesis by (auto simp: handler_def g)
      next
        case yok: False
        show ?thesis
        proof (cases "query_semester req")
          case None
          with r rok y yok show ?thesis by (auto simp: handler_def g)
        next
          case (Some s)
          note s = this
          show ?thesis
          proof (cases "toUpperCase s = [] \<or> \<not> romanMapTruthy (toUpperCase s)")
            case True
            with r rok y yok s show ?thesis by (auto simp: handler_def g)
          next
            case sok: False
            show ?thesis
            proof (cases "query_exam_held req")
              case None
              with r rok y yok s sok show ?thesis by (auto simp: handler_def g)
            next
              case (Some e)
              note e = this
              show ?thesis
              proof (cases "e = []")
                case True
                with r rok y yok s sok e show ?thesis by (auto simp: handler_def g)
              next
                case False
                have "validQuery req"
                  using r rok y yok s sok e False romanMapTruthy_upper [of s]
                  by (simp add: validQuery_def test_digits11_def)
                with inv show ?thesis by simp
              qed
            qed
          qed
        qed
      qed
    qed
  qed
qed

subsection \<open>Lengths of the constructed numbers\<close>

lemma length_registrationNumbers: "length (registrationNumbers p n) = 5"
  by (simp add: registrationNumbers_eq)

lemma length_digits_of_pos: "0 < length (digits_of m)"
  by (subst digits_of.simps) simp

lemma length_digits_of_lt10: "m < 10 \<Longrightarrow> length (digits_of m) = 1"
  by (subst digits_of.simps) simp

lemma length_digits_of_lt100: "10 \<le> m \<Longrightarrow> m < 100 \<Longrightarrow> length (digits_of m) = 2"
  by (subst digits_of.simps) (simp add: length_digits_of_lt10)

lemma length_digits_of_lt1000: "100 \<le> m \<Longrightarrow> m < 1000 \<Longrightarrow> length (digits_of m) = 3"
  by (subst digits_of.simps) (simp add: length_digits_of_lt100)

lemma length_digits_of_lt10000: "1000 \<le> m \<Longrightarrow> m < 10000 \<Longrightarrow> length (digits_of m) = 4"
  by (subst digits_of.simps) (simp add: length_digits_of_lt1000)

lemma length_digits_of_ge100: "100 \<le> m \<Longrightarrow> 3 \<le> length (digits_of m)"
proof (induction m rule: digits_of.induct)
  case (1 n)
  show ?case
  proof (cases "n < 1000")
    case True
    with 1(2) show ?thesis by (simp add: length_digits_of_lt1000)
  next
    case False
    then have big: "100 \<le> n div 10" "\<not> n < 10" by simp_all
    with 1(1) have "3 \<le> length (digits_of (n div 10))" by simp
    with big(2) show ?thesis by (subst digits_of.simps) simp
  qed
qed

lemma suffix_nat: "suffix (int m) = padStart 3 CHR ''0'' (digits_of m)"
proof (cases "900 \<le> m")
  case True
  then have "3 \<le> length (digits_of m)" by (simp add: length_digits_of_ge100)
  with True show ?thesis by (simp add: suffix_def toString_def padStart_def)
next
  case False
  then show ?thesis by (simp add: suffix_def toString_def)
qed

lemma length_suffix_lt1000: "m < 1000 \<Longrightarrow> length (suffix (int m)) = 3"
proof -
  assume "m < 1000"
  then consider "m < 10" | "10 \<le> m" "m < 100" | "100 \<le> m" "m < 1000" by linarith
  then show ?thesis
    by cases (simp_all add: suffix_nat padStart_def length_digits_of_lt10
        length_digits_of_lt100 length_digits_of_lt1000)
qed

lemma length_suffix_ge1000: "1000 \<le> m \<Longrightarrow> m < 10000 \<Longrightarrow> length (suffix (int m)) = 4"
  by (simp add: suffix_nat padStart_def length_digits_of_lt10000)

lemma registrationNumbers_nat:
  "registrationNumbers p (int m) = map (\<lambda>k. p @ padStart 3 CHR ''0'' (digits_of (m + k))) [0..<5]"
proof -
  have "[0..<5] = [0, 1, 2, 3, 4 :: nat]" by (simp add: upt_rec)
  moreover have "int m + 1 = int (m + 1)" "int m + 2 = int (m + 2)" "int m + 3 = int (m + 3)"
    "int m + 4 = int (m + 4)" by simp_all
  ultimately show ?thesis
    by (simp only: registrationNumbers_eq suffix_nat list.map add_0_right)
qed

subsection \<open>Validation\<close>

text \<open>
  On requests whose parameters are missing or given once: for every such GET request,
  the handler of result.js answers 400 with an error object
  and issues no upstream request exactly when the query is not valid: \<^verbatim>\<open>reg_no\<close> is
  missing or not a string of 11 decimal digits, or \<^verbatim>\<open>year\<close> is missing or does not parse as
  an integer, or \<^verbatim>\<open>semester\<close> is not, after uppercasing, a Roman numeral I to VIII, or
  \<^verbatim>\<open>exam_held\<close> is missing or empty. Otherwise the answer is 200 and the batch of five is
  fetched.
\<close>

lemma validation_400_iff:
  assumes "req_method req = ''GET''"
  shows "((res_status (handler up req) = 400 \<and>
           (\<exists>msg. res_body (handler up req) = Json (JObj [(''error'', JStr msg)])) \<and>
           fetched (handler up req) = []) \<longleftrightarrow> \<not> validQuery req) \<and>
         (validQuery req \<longrightarrow>
            res_status (handler up req) = 200 \<and> length (fetched (handler up req)) = 5)"
proof (cases "validQuery req")
  case True
  from handler_valid [OF assms True, of up] obtain p n y s e where
    "handler up req = batchPhase up p n y s e" by blast
  then have "res_status (handler up req) = 200" "length (fetched (handler up req)) = 5"
    by (simp_all add: batchPhase_eq length_registrationNumbers)
  with True show ?thesis by simp
next
  case False
  from handler_invalid [OF assms False] obtain msg where
    "handler up req = badRequest msg" by blast
  then have "res_status (handler up req) = 400"
    "res_body (handler up req) = Json (JObj [(''error'', JStr msg)])"
    "fetched (handler up req) = []"
    by (simp_all add: badRequest_def errorBody_def)
  with False show ?thesis by blast
qed

lemma validation_400_iff_example:
  "req_method sampleRequest = ''GET'' \<and> validQuery sampleRequest \<and>
   res_status (handler sampleUpstream sampleRequest) = 200 \<and>
   length (fetched (handler sampleUpstream sampleRequest)) = 5 \<and>
   req_method shortRequest = ''GET'' \<and> \<not> validQuery shortRequest \<and>
   res_status (handler sampleUpstream shortRequest) = 400 \<and>
   fetched (handler sampleUpstream shortRequest) = []"
proof -
  have g: "req_method sampleRequest = ''GET''" "req_method shortRequest = ''GET''"
    by (simp_all add: sampleRequest_def shortRequest_def)
  have v: "validQuery sampleRequest" "\<not> validQuery shortRequest"
    by code_simp+
  from validation_400_iff [OF g(1), of sampleUpstream] validation_400_iff [OF g(2), of sampleUpstream]
  show ?thesis using g v by simp
qed

subsection \<open>The response to a valid request\<close>

lemma handler_valid_parts:
  assumes "req_method req = ''GET''" "validQuery req"
    "query_reg_no req = Some r" "query_year req = Some y"
    "query_semester req = Some s" "query_exam_held req = Some e"
  shows "res_status (handler up req) = 200"
    and "res_headers (handler up req) = corsHeaders"
    and "res_body (handler up req) = Json (JArr (bodyItems (handler up req)))"
    and "bodyItems (handler up req) =
           map (\<lambda>rn. itemFor up rn y (toUpperCase s) (encodeURIComponent e))
             (registrationNumbers (take 8 r) (int (lastThree r)))"
    and "fetched (handler up req) =
           map (\<lambda>rn. issuedCall rn y (toUpperCase s) (encodeURIComponent e))
             (registrationNumbers (take 8 r) (int (lastThree r)))"
proof -
  from handler_valid [OF assms(1,2), of up] assms(3-6)
  have h: "handler up req = batchPhase up (take 8 r) (int (lastThree r)) y (toUpperCase s) e"
    by auto
  show "res_status (handler up req) = 200" "res_headers (handler up req) = corsHeaders"
    "res_body (handler up req) = Json (JArr (bodyItems (handler up req)))"
    "bodyItems (handler up req) =
           map (\<lambda>rn. itemFor up rn y (toUpperCase s) (encodeURIComponent e))
             (registrationNumbers (take 8 r) (int (lastThree r)))"
    "fetched (handler up req) =
           map (\<lambda>rn. issuedCall rn y (toUpperCase s) (encodeURIComponent e))
             (registrationNumbers (take 8 r) (int (lastThree r)))"
    by (simp_all add: h batchPhase_eq bodyItems_def)
qed

lemma validQuery_fields:
  assumes "validQuery req"
  shows "\<exists>r y s e. query_reg_no req = Some r \<and> query_year req = Some y \<and>
           query_semester req = Some s \<and> query_exam_held req = Some e \<and>
           length r = 11 \<and> list_all isDigit r"
  using assms by (auto simp: validQuery_def split: option.splits)

lemma settled_success:
  assumes "up (targetUrl rn y s e) = Inr (Response True st (Inr (JObj fields)))"
    "map_of fields ''status'' = Some (JNum 200)" "map_of fields ''data'' = Some (JObj d)"
  shows "settledResult up rn y s e = Fulfilled (SingleResult ''success'' rn None (Some (JObj d)))"
  using assms by (simp add: settledResult_cases fetchTry_def fromJson_def truthyOpt_def)

lemma toItem_success_object:
  "toItem a (Fulfilled (SingleResult ''success'' rn x (Some (JObj d)))) =
     Inr (JObj [(''regNo'', JStr rn), (''status'', JStr ''success''),
                (''data'', JObj (filter (\<lambda>kv. fst kv \<noteq> ''father_name'' \<and> fst kv \<noteq> ''mother_name'') d))])"
  by (simp add: toItem_def conj_commute)

text \<open>
  C1. For a request that passes validation and a batch item whose upstream fetch
  succeeds (the response is ok and its JSON has status 200 and a data object), the item
  of the client response carries that data object without the fields \<^verbatim>\<open>father_name\<close>
  and \<^verbatim>\<open>mother_name\<close>; the other fields stay, in their order.
\<close>

theorem success_item_strips_parents:
  assumes "req_method req = ''GET''" "validQuery req" "k < 5"
    "up (url (fetched (handler up req) ! k)) = Inr (Response True st (Inr (JObj fields)))"
    "map_of fields ''status'' = Some (JNum 200)" "map_of fields ''data'' = Some (JObj d)"
  shows "res_body (handler up req) = Json (JArr (bodyItems (handler up req))) \<and>
         length (bodyItems (handler up req)) = 5 \<and>
         (\<exists>rn. bodyItems (handler up req) ! k =
            JObj [(''regNo'', JStr rn), (''status'', JStr ''success''),
                  (''data'', JObj (filter (\<lambda>kv. fst kv \<noteq> ''father_name'' \<and>
                                               fst kv \<noteq> ''mother_name'') d))])"
proof -
  from validQuery_fields [OF assms(2)] obtain r y s e where
    q: "query_reg_no req = Some r" "query_year req = Some y"
       "query_semester req = Some s" "query_exam_held req = Some e" by blast
  note p = handler_valid_parts [OF assms(1,2) q, of up]
  let ?regs = "registrationNumbers (take 8 r) (int (lastThree r))"
  have len: "length ?regs = 5" by (rule length_registrationNumbers)
  with assms(3) have k: "k < length ?regs" by simp
  have "url (fetched (handler up req) ! k) =
          targetUrl (?regs ! k) y (toUpperCase s) (encodeURIComponent e)"
    using k by (simp add: p(5) issuedCall_def)
  with assms(4) have
    "up (targetUrl (?regs ! k) y (toUpperCase s) (encodeURIComponent e)) =
       Inr (Response True st (Inr (JObj fields)))" by simp
  from settled_success [where up = up, OF this assms(5,6)]
  have "bodyItems (handler up req) ! k =
          JObj [(''regNo'', JStr (?regs ! k)), (''status'', JStr ''success''),
                (''data'', JObj (filter (\<lambda>kv. fst kv \<noteq> ''father_name'' \<and>
                                             fst kv \<noteq> ''mother_name'') d))]"
    using k by (simp add: p(4) itemFor_def toItem_success_object)
  moreover have "length (bodyItems (handler up req)) = 5" by (simp add: p(4) len)
  ultimately show ?thesis using p(3) by blast
qed

lemma filter_keeps_others:
  "k \<noteq> a \<Longrightarrow> k \<noteq> b \<Longrightarrow> map_of (filter (\<lambda>kv. fst kv \<noteq> a \<and> fst kv \<noteq> b) d) k = map_of d k"
  by (induction d) auto

lemma filter_drops:
  "map_of (filter (\<lambda>kv. fst kv \<noteq> a \<and> fst kv \<noteq> b) d) a = None"
  "map_of (filter (\<lambda>kv. fst kv \<noteq> a \<and> fst kv \<noteq> b) d) b = None"
  by (induction d) auto

theorem success_item_strips_parents_witness:
  "req_method sampleRequest = ''GET'' \<and> validQuery sampleRequest \<and> (2::nat) < 5 \<and>
   sampleUpstream (url (fetched (handler sampleUpstream sampleRequest) ! 2)) =
     Inr (Response True 200 (Inr sampleRecord)) \<and>
   (\<exists>rn. bodyItems (handler sampleUpstream sampleRequest) ! 2 =
      JObj [(''regNo'', JStr rn), (''status'', JStr ''success''),
            (''data'', JObj [(''name'', JStr ''A''), (''sgpa'', JNum 8)])])"
proof -
  have g: "req_method sampleRequest = ''GET''" by (simp add: sampleRequest_def)
  have v: "validQuery sampleRequest" by code_simp
  have u: "sampleUpstream (url (fetched (handler sampleUpstream sampleRequest) ! 2)) =
     Inr (Response True 200 (Inr (JObj [(''status'', JNum 200),
           (''data'', JObj [(''name'', JStr ''A''), (''father_name'', JStr ''B''),
                            (''mother_name'', JStr ''C''), (''sgpa'', JNum 8)])])))"
    by (simp add: sampleUpstream_def sampleRecord_def)
  have k: "(2::nat) < 5" by simp
  have f: "map_of [(''status'', JNum 200),
           (''data'', JObj [(''name'', JStr ''A''), (''father_name'', JStr ''B''),
                            (''mother_name'', JStr ''C''), (''sgpa'', JNum 8)])] ''status'' = Some (JNum 200)"
    "map_of [(''status'', JNum 200),
           (''data'', JObj [(''name'', JStr ''A''), (''father_name'', JStr ''B''),
                            (''mother_name'', JStr ''C''), (''sgpa'', JNum 8)])] ''data'' =
       Some (JObj [(''name'', JStr ''A''), (''father_name'', JStr ''B''),
                            (''mother_name'', JStr ''C''), (''sgpa'', JNum 8)])"
    by simp_all
  from success_item_strips_parents [where up = sampleUpstream and req = sampleRequest and k = 2,
      OF g v k u f]
  have "\<exists>rn. bodyItems (handler sampleUpstream sampleRequest) ! 2 =
      JObj [(''regNo'', JStr rn), (''status'', JStr ''success''),
            (''data'', JObj [(''name'', JStr ''A''), (''sgpa'', JNum 8)])]"
    by simp
  with g v u show ?thesis by (simp add: sampleRecord_def)
qed

subsection \<open>The items of the response\<close>

text \<open>
  C5. For a request that passes validation the handler answers 200 with a JSON array
  of exactly five items; every item has a \<^verbatim>\<open>regNo\<close> field and a \<^verbatim>\<open>status\<close> field that is
  \<^verbatim>\<open>success\<close>, \<^verbatim>\<open>Record not found\<close> or \<^verbatim>\<open>Error fetching result (temporary)\<close>; a success item
  carries \<^verbatim>\<open>data\<close> and an error item carries a string \<^verbatim>\<open>reason\<close>.
\<close>

theorem valid_request_five_items:
  assumes "req_method req = ''GET''" "validQuery req"
  shows "res_status (handler up req) = 200 \<and>
         res_body (handler up req) = Json (JArr (bodyItems (handler up req))) \<and>
         length (bodyItems (handler up req)) = 5 \<and>
         list_all itemShape (bodyItems (handler up req))"
proof -
  from validQuery_fields [OF assms(2)] obtain r y s e where
    q: "query_reg_no req = Some r" "query_year req = Some y"
       "query_semester req = Some s" "query_exam_held req = Some e" by blast
  note p = handler_valid_parts [OF assms q, of up]
  have "list_all itemShape (bodyItems (handler up req))"
    by (simp add: p(4) list_all_iff item_shape)
  moreover have "length (bodyItems (handler up req)) = 5"
    by (simp add: p(4) length_registrationNumbers)
  ultimately show ?thesis using p(1,3) by blast
qed

theorem valid_request_five_items_witness:
  "req_method sampleRequest = ''GET'' \<and> validQuery sampleRequest \<and>
   res_status (handler slowUpstream sampleRequest) = 200 \<and>
   length (bodyItems (handler slowUpstream sampleRequest)) = 5 \<and>
   list_all itemShape (bodyItems (handler slowUpstream sampleRequest))"
proof -
  have g: "req_method sampleRequest = ''GET''" by (simp add: sampleRequest_def)
  have v: "validQuery sampleRequest" by code_simp
  from valid_request_five_items [OF g v, of slowUpstream] g v show ?thesis by simp
qed

text \<open>
  C9. The response keeps the order of the batch: for a request that passes validation
  and every index \<open>i\<close> from 0 to 4, the \<open>i\<close>-th item has the \<open>i\<close>-th constructed
  registration number as its \<^verbatim>\<open>regNo\<close>.
\<close>

theorem items_in_batch_order:
  assumes "req_method req = ''GET''" "validQuery req" "query_reg_no req = Some r"
    "parseInt (slice_back r) (Some 10) = Some startNum" "i < 5"
  shows "length (bodyItems (handler up req)) = 5 \<and>
         length (registrationNumbers (slice_front r) startNum) = 5 \<and>
         getProp (bodyItems (handler up req) ! i) ''regNo'' =
           Some (JStr (registrationNumbers (slice_front r) startNum ! i))"
proof -
  from validQuery_fields [OF assms(2)] assms(3) obtain y s e where
    q: "query_reg_no req = Some r" "query_year req = Some y"
       "query_semester req = Some s" "query_exam_held req = Some e"
    and r: "length r = 11" "list_all isDigit r" by auto
  note p = handler_valid_parts [OF assms(1,2) q, of up]
  have n: "startNum = int (lastThree r)" using parseInt_lastThree [OF r] assms(4) by simp
  have f: "slice_front r = take 8 r" using r(1) by (rule slice_front_11)
  have len: "length (registrationNumbers (take 8 r) (int (lastThree r))) = 5"
    by (rule length_registrationNumbers)
  with assms(5) show ?thesis
    by (simp add: p(4) n f item_regNo)
qed

theorem items_in_batch_order_witness:
  "req_method sampleRequest = ''GET'' \<and> validQuery sampleRequest \<and>
   query_reg_no sampleRequest = Some ''21105111001'' \<and>
   parseInt (slice_back ''21105111001'') (Some 10) = Some 1 \<and> (3::nat) < 5 \<and>
   getProp (bodyItems (handler sampleUpstream sampleRequest) ! 3) ''regNo'' =
     Some (JStr ''21105111004'')"
proof -
  have g: "req_method sampleRequest = ''GET''" by (simp add: sampleRequest_def)
  have v: "validQuery sampleRequest" by code_simp
  have q: "query_reg_no sampleRequest = Some ''21105111001''" by (simp add: sampleRequest_def)
  have n: "parseInt (slice_back ''21105111001'') (Some 10) = Some 1" by code_simp
  have i: "(3::nat) < 5" by simp
  have "registrationNumbers (slice_front ''21105111001'') 1 ! 3 = ''21105111004''"
    by code_simp
  with items_in_batch_order [OF g v q n i, of sampleUpstream] g v q n show ?thesis by simp
qed

subsection \<open>The batch that is fetched\<close>

text \<open>
  C2. For a request that passes validation the handler constructs exactly five
  registration numbers, the first 8 characters of \<^verbatim>\<open>reg_no\<close> followed by the decimal
  string of \<open>startNum + k\<close> for \<open>k\<close> from 0 to 4, padded with zeros on the left to at
  least 3 digits, where \<open>startNum\<close> is the value of the last 3 digits of \<^verbatim>\<open>reg_no\<close>; and
  it issues exactly one call of \<^verbatim>\<open>fetch\<close> per constructed number, in that order.
\<close>

theorem batch_of_five_fetched_once:
  assumes "req_method req = ''GET''" "validQuery req"
    "query_reg_no req = Some r" "query_year req = Some y"
    "query_semester req = Some s" "query_exam_held req = Some e"
  shows "parseInt (slice_back r) (Some 10) = Some (int (lastThree r)) \<and>
         registrationNumbers (slice_front r) (int (lastThree r)) =
           map (\<lambda>k. take 8 r @ padStart 3 CHR ''0'' (digits_of (lastThree r + k))) [0..<5] \<and>
         fetched (handler up req) =
           map (\<lambda>k. issuedCall (take 8 r @ padStart 3 CHR ''0'' (digits_of (lastThree r + k)))
                        y (toUpperCase s) (encodeURIComponent e)) [0..<5] \<and>
         length (fetched (handler up req)) = 5"
proof -
  from validQuery_fields [OF assms(2)] assms(3) have r: "length r = 11" "list_all isDigit r"
    by auto
  note p = handler_valid_parts [OF assms, of up]
  have f: "slice_front r = take 8 r" using r(1) by (rule slice_front_11)
  have "fetched (handler up req) =
           map (\<lambda>k. issuedCall (take 8 r @ padStart 3 CHR ''0'' (digits_of (lastThree r + k)))
                        y (toUpperCase s) (encodeURIComponent e)) [0..<5]"
    unfolding p(5) registrationNumbers_nat by (simp only: map_map comp_def)
  moreover have "length (fetched (handler up req)) = 5"
    unfolding p(5) by (simp add: length_registrationNumbers)
  ultimately show ?thesis
    using parseInt_lastThree [OF r] by (simp only: f registrationNumbers_nat simp_thms)
qed

theorem batch_of_five_fetched_once_witness:
  "req_method sampleRequest = ''GET'' \<and> validQuery sampleRequest \<and>
   query_reg_no sampleRequest = Some ''21105111001'' \<and>
   query_year sampleRequest = Some ''2024'' \<and>
   query_semester sampleRequest = Some ''iii'' \<and>
   query_exam_held sampleRequest = Some ''Nov/2024'' \<and>
   map url (fetched (handler sampleUpstream sampleRequest)) =
     map (\<lambda>rn. targetUrl rn ''2024'' ''III'' ''Nov%2F2024'')
       [''21105111001'', ''21105111002'', ''21105111003'', ''21105111004'', ''21105111005'']"
proof -
  have g: "req_method sampleRequest = ''GET''" by (simp add: sampleRequest_def)
  have v: "validQuery sampleRequest" by code_simp
  have q: "query_reg_no sampleRequest = Some ''21105111001''"
    "query_year sampleRequest = Some ''2024''"
    "query_semester sampleRequest = Some ''iii''"
    "query_exam_held sampleRequest = Some ''Nov/2024''"
    by (simp_all add: sampleRequest_def)
  have c: "map (\<lambda>k. take 8 ''21105111001'' @
                 padStart 3 CHR ''0'' (digits_of (lastThree ''21105111001'' + k))) [0..<5] =
           [''21105111001'', ''21105111002'', ''21105111003'', ''21105111004'', ''21105111005'']"
    "toUpperCase ''iii'' = ''III''" "encodeURIComponent ''Nov/2024'' = ''Nov%2F2024''"
    by code_simp+
  have "map url (fetched (handler sampleUpstream sampleRequest)) =
          map (\<lambda>rn. targetUrl rn ''2024'' ''III'' ''Nov%2F2024'')
            (map (\<lambda>k. take 8 ''21105111001'' @
                 padStart 3 CHR ''0'' (digits_of (lastThree ''21105111001'' + k))) [0..<5])"
    using batch_of_five_fetched_once [OF g v q, of sampleUpstream]
    by (simp add: issuedCall_def comp_def c(2,3))
  with g v q show ?thesis by (simp only: c(1) simp_thms)
qed

lemma length_padded_lt1000: "m < 1000 \<Longrightarrow> length (padStart 3 CHR ''0'' (digits_of m)) = 3"
  using length_suffix_lt1000 [of m] by (simp add: suffix_nat)

lemma length_padded_ge1000:
  "1000 \<le> m \<Longrightarrow> m < 10000 \<Longrightarrow> length (padStart 3 CHR ''0'' (digits_of m)) = 4"
  using length_suffix_ge1000 [of m] by (simp add: suffix_nat)

text \<open>
  C10. When the last three digits of a valid \<^verbatim>\<open>reg_no\<close> are at most 995, the five
  constructed numbers have 11 characters each. From 996 on the range reaches 1000: the
  numbers from 1000 on have 12 characters, the last of the batch among them, and the
  handler fetches them, longer than any \<^verbatim>\<open>reg_no\<close> it accepts.
\<close>

theorem batch_length_crosses_1000:
  assumes "req_method req = ''GET''" "validQuery req"
    "query_reg_no req = Some r" "query_year req = Some y"
    "query_semester req = Some s" "query_exam_held req = Some e"
    "parseInt (slice_back r) (Some 10) = Some n"
  shows "length r = 11 \<and>
         map url (fetched (handler up req)) =
           map (\<lambda>rn. targetUrl rn y (toUpperCase s) (encodeURIComponent e))
             (registrationNumbers (slice_front r) n) \<and>
         (n \<le> 995 \<longrightarrow>
            list_all (\<lambda>rn. length rn = 11) (registrationNumbers (slice_front r) n)) \<and>
         (996 \<le> n \<longrightarrow>
            list_all (\<lambda>k. length (registrationNumbers (slice_front r) n ! k) =
                            (if 1000 \<le> n + int k then 12 else 11)) [0..<5] \<and>
            length (registrationNumbers (slice_front r) n ! 4) = 12)"
proof -
  from validQuery_fields [OF assms(2)] assms(3) have r: "length r = 11" "list_all isDigit r"
    by auto
  note p = handler_valid_parts [OF assms(1-6), of up]
  have f: "slice_front r = take 8 r" using r(1) by (rule slice_front_11)
  have n: "n = int (lastThree r)" using parseInt_lastThree [OF r] assms(7) by simp
  have b: "lastThree r \<le> 999" using r by (rule lastThree_bound)
  let ?m = "lastThree r"
  let ?regs = "registrationNumbers (slice_front r) n"
  have t: "length (take 8 r) = 8" using r(1) by simp
  have nth: "?regs ! k = take 8 r @ padStart 3 CHR ''0'' (digits_of (?m + k))" if "k < 5" for k
    using that unfolding f n registrationNumbers_nat by simp
  have len: "length (?regs ! k) = (if 1000 \<le> ?m + k then 12 else 11)" if "k < 5" for k
  proof (cases "1000 \<le> ?m + k")
    case True
    moreover from b that have "?m + k < 10000" by simp
    ultimately show ?thesis using r(1) by (simp add: nth [OF that] length_padded_ge1000)
  next
    case False
    then show ?thesis using r(1) by (simp add: nth [OF that] length_padded_lt1000)
  qed
  have five: "length ?regs = 5" by (rule length_registrationNumbers)
  have urls: "map url (fetched (handler up req)) =
           map (\<lambda>rn. targetUrl rn y (toUpperCase s) (encodeURIComponent e)) ?regs"
    by (simp add: p(5) f n issuedCall_def comp_def)
  have low: "list_all (\<lambda>rn. length rn = 11) ?regs" if "n \<le> 995"
  proof -
    have "length (?regs ! k) = 11" if "k < 5" for k
      using len [OF that] \<open>n \<le> 995\<close> n that by simp
    then show ?thesis using five by (simp add: list_all_length)
  qed
  have high: "list_all (\<lambda>k. length (?regs ! k) = (if 1000 \<le> n + int k then 12 else 11)) [0..<5] \<and>
            length (?regs ! 4) = 12"
    if "996 \<le> n"
  proof -
    from that n have m: "996 \<le> ?m" by simp
    have "length (?regs ! 4) = 12" using len [of 4] m by simp
    moreover have "length (?regs ! k) = (if 1000 \<le> n + int k then 12 else 11)" if "k < 5" for k
      using len [OF that] n by simp
    then have "list_all (\<lambda>k. length (?regs ! k) = (if 1000 \<le> n + int k then 12 else 11)) [0..<5]"
      by (simp add: list_all_iff)
    ultimately show ?thesis by simp
  qed
  from r(1) urls low high show ?thesis by blast
qed


theorem batch_length_crosses_1000_witness:
  "req_method lateRequest = ''GET'' \<and> validQuery lateRequest \<and>
   query_reg_no lateRequest = Some ''21105111998'' \<and>
   query_year lateRequest = Some ''2024'' \<and>
   query_semester lateRequest = Some ''III'' \<and>
   query_exam_held lateRequest = Some ''Nov/2024'' \<and>
   parseInt (slice_back ''21105111998'') (Some 10) = Some 998 \<and> (996::int) \<le> 998 \<and>
   length (registrationNumbers (slice_front ''21105111998'') 998 ! 4) = 12 \<and>
   registrationNumbers (slice_front ''21105111998'') 998 =
     [''21105111998'', ''21105111999'', ''211051111000'', ''211051111001'', ''211051111002''] \<and>
   req_method sampleRequest = ''GET'' \<and> validQuery sampleRequest \<and>
   query_reg_no sampleRequest = Some ''21105111001'' \<and>
   query_year sampleRequest = Some ''2024'' \<and>
   query_semester sampleRequest = Some ''iii'' \<and>
   query_exam_held sampleRequest = Some ''Nov/2024'' \<and>
   parseInt (slice_back ''21105111001'') (Some 10) = Some 1 \<and> (1::int) \<le> 995 \<and>
   list_all (\<lambda>rn. length rn = 11) (registrationNumbers (slice_front ''21105111001'') 1)"
proof -
  have g: "req_method lateRequest = ''GET''" "req_method sampleRequest = ''GET''"
    by (simp_all add: lateRequest_def sampleRequest_def)
  have v: "validQuery lateRequest" "validQuery sampleRequest" by code_simp+
  have q: "query_reg_no lateRequest = Some ''21105111998''"
    "query_year lateRequest = Some ''2024''"
    "query_semester lateRequest = Some ''III''"
    "query_exam_held lateRequest = Some ''Nov/2024''"
    by (simp_all add: lateRequest_def)
  have q': "query_reg_no sampleRequest = Some ''21105111001''"
    "query_year sampleRequest = Some ''2024''"
    "query_semester sampleRequest = Some ''iii''"
    "query_exam_held sampleRequest = Some ''Nov/2024''"
    by (simp_all add: sampleRequest_def)
  have n: "parseInt (slice_back ''21105111998'') (Some 10) = Some 998"
    "parseInt (slice_back ''21105111001'') (Some 10) = Some 1" by code_simp+
  have regs: "registrationNumbers (slice_front ''21105111998'') 998 =
     [''21105111998'', ''21105111999'', ''211051111000'', ''211051111001'', ''211051111002'']"
    by code_simp
  from batch_length_crosses_1000 [OF g(1) v(1) q n(1), of sampleUpstream]
    batch_length_crosses_1000 [OF g(2) v(2) q' n(2), of sampleUpstream]
  have "length (registrationNumbers (slice_front ''21105111998'') 998 ! 4) = 12"
    "list_all (\<lambda>rn. length rn = 11) (registrationNumbers (slice_front ''21105111001'') 1)"
    by simp_all
  with g v q q' n regs show ?thesis by simp
qed

subsection \<open>fetchSingleResult: the timer and the promise\<close>

text \<open>
  C6. Every call of \<^verbatim>\<open>fetch\<close> by \<^verbatim>\<open>fetchSingleResult\<close> is issued with an abort timer of
  \<^verbatim>\<open>FETCH_TIMEOUT\<close> = 8000 ms, and when the fetch (or the reading of its body) fails
  with an error named \<^verbatim>\<open>AbortError\<close>, whatever its message, the function returns status
  \<^verbatim>\<open>error\<close> with the reason \<^verbatim>\<open>Request Timed Out\<close>; the exception does not propagate.
\<close>

theorem abort_is_reported_as_timeout:
  "FETCH_TIMEOUT = 8000 \<and>
   snd (fetchSingleResult up rn y s e calls) =
     calls @ [FetchCall (targetUrl rn y s e) (fetchHeaders y s e) 8000] \<and>
   (up (targetUrl rn y s e) = Inl (Thrown (Some (JStr ''AbortError'')) msg) \<or>
    (\<exists>st. up (targetUrl rn y s e) =
       Inr (Response True st (Inl (Thrown (Some (JStr ''AbortError'')) msg)))) \<longrightarrow>
    fst (fetchSingleResult up rn y s e calls) =
      Fulfilled (SingleResult ''error'' rn (Some (JStr ''Request Timed Out'')) None))"
  by (auto simp: fetchSingleResult_def Let_def FETCH_TIMEOUT_def fetchTry_def fetchCatch_def)

theorem abort_is_reported_as_timeout_witness:
  "slowUpstream (targetUrl ''21105111001'' ''2024'' ''III'' ''Nov%2F2024'') =
     Inl (Thrown (Some (JStr ''AbortError'')) (Some (JStr ''The user aborted a request.''))) \<and>
   abort_after (last (snd (fetchSingleResult slowUpstream ''21105111001'' ''2024'' ''III''
     ''Nov%2F2024'' []))) = 8000 \<and>
   fst (fetchSingleResult slowUpstream ''21105111001'' ''2024'' ''III'' ''Nov%2F2024'' []) =
     Fulfilled (SingleResult ''error'' ''21105111001'' (Some (JStr ''Request Timed Out'')) None)"
proof -
  have u: "slowUpstream (targetUrl ''21105111001'' ''2024'' ''III'' ''Nov%2F2024'') =
     Inl (Thrown (Some (JStr ''AbortError'')) (Some (JStr ''The user aborted a request.'')))"
    by (simp add: slowUpstream_def)
  from abort_is_reported_as_timeout [where up = slowUpstream and calls = "[]"
      and rn = "''21105111001''" and y = "''2024''" and s = "''III''" and e = "''Nov%2F2024''"
      and msg = "Some (JStr ''The user aborted a request.'')"]
  show ?thesis using u by simp
qed

subsection \<open>fetchSingleResult: what it resolves to, and when it rejects\<close>

text \<open>
  The \<^verbatim>\<open>catch\<close> of line 43 reads \<^verbatim>\<open>error.name\<close> and \<^verbatim>\<open>error.message\<close>. A value thrown
  inside the \<^verbatim>\<open>try\<close> that is an error object, with a string for its name and for its
  message, is turned into a result; \<^verbatim>\<open>null\<close> and \<^verbatim>\<open>undefined\<close> make the \<^verbatim>\<open>catch\<close> itself
  throw, and the promise rejects.
\<close>

lemma isErrorObject_cases:
  assumes "isErrorObject t"
  obtains n m where "t = Thrown (Some (JStr n)) (Some (JStr m))"
  using assms
  by (auto simp: isErrorObject_def split: thrown.splits option.splits json.splits)

lemma isErrorObject_errorObject: "isErrorObject (errorObject err)"
  by (simp add: isErrorObject_def errorObject_def)

lemma fetchCatch_errorObject:
  assumes "isErrorObject t"
  shows "\<exists>v. fetchCatch rn t = Inr v"
proof -
  from assms obtain n m where t: "t = Thrown (Some (JStr n)) (Some (JStr m))"
    by (rule isErrorObject_cases)
  show ?thesis by (simp add: t fetchCatch_def templateOpt_def)
qed

lemma fetchTry_thrown:
  assumes "fetchTry up target rn = Inl t" and "rejectsWithErrors (up target)"
  shows "isErrorObject t"
proof (cases "up target")
  case (Inl t')
  with assms show ?thesis by (simp add: fetchTry_def rejectsWithErrors_def)
next
  case (Inr apiResponse)
  show ?thesis
  proof (cases "resp_json apiResponse")
    case (Inl t')
    with Inr assms show ?thesis
      by (simp add: fetchTry_def rejectsWithErrors_def split: if_splits)
  next
    case j: (Inr jsonData)
    show ?thesis
    proof (cases "fromJson rn jsonData")
      case (Inl err)
      with Inr j assms isErrorObject_errorObject [of err] show ?thesis
        by (auto simp: fetchTry_def split: if_splits)
    next
      case (Inr v)
      with \<open>up target = Inr apiResponse\<close> j assms show ?thesis
        by (simp add: fetchTry_def split: if_splits)
    qed
  qed
qed

lemma settled_fulfilled:
  assumes "rejectsWithErrors (up (targetUrl rn y s e))"
  shows "\<exists>v. settledResult up rn y s e = Fulfilled v"
proof (cases "fetchTry up (targetUrl rn y s e) rn")
  case (Inr v)
  then show ?thesis by (simp add: settledResult_cases)
next
  case (Inl t)
  from fetchTry_thrown [OF Inl assms] have "isErrorObject t" .
  from fetchCatch_errorObject [OF this, of rn] obtain v where "fetchCatch rn t = Inr v" ..
  with Inl show ?thesis by (simp add: settledResult_cases)
qed

lemma fulfilled_status:
  assumes "settledResult up rn y s e = Fulfilled v"
  shows "val_status v \<in> set [''success'', ''not_found'', ''error'']"
proof -
  from settled_wellFormed [OF assms] have "wellFormed rn v" .
  then have "val_status v = ''success'' \<or> val_status v = ''not_found'' \<or> val_status v = ''error''"
    unfolding wellFormed_def by (elim conjE disjE) simp_all
  then show ?thesis by (elim disjE) simp_all
qed

lemma isFulfilled_settled:
  assumes "rejectsWithErrors (up (targetUrl rn y s e))"
  shows "case settledResult up rn y s e of Fulfilled v \<Rightarrow> True | Rejected err \<Rightarrow> False"
  using settled_fulfilled [where up = up, OF assms] by (elim exE) simp

text \<open>
  The promise does reject, and the handler's branch for rejected promises is reached,
  when a fetch rejects with \<^verbatim>\<open>null\<close>.
\<close>

lemma null_rejection_reaches_fallback:
  "fst (fetchSingleResult nullUpstream rn y s e calls) =
     Rejected (JsError ''TypeError'' ''Cannot read properties of null (reading 'name')'') \<and>
   length (bodyItems (handler nullUpstream sampleRequest)) = 5 \<and>
   list_all (\<lambda>item. getProp item ''reason'' = Some (JStr ''Promise rejected''))
     (bodyItems (handler nullUpstream sampleRequest))"
proof -
  have a: "settledResult nullUpstream rn y s e =
     Rejected (JsError ''TypeError'' ''Cannot read properties of null (reading 'name')'')"
    for rn y s e
    by (simp add: settledResult_cases fetchTry_def nullUpstream_def fetchCatch_def)
  have g: "req_method sampleRequest = ''GET''" by (simp add: sampleRequest_def)
  have v: "validQuery sampleRequest" by code_simp
  have q: "query_reg_no sampleRequest = Some ''21105111001''"
    "query_year sampleRequest = Some ''2024''"
    "query_semester sampleRequest = Some ''iii''"
    "query_exam_held sampleRequest = Some ''Nov/2024''"
    by (simp_all add: sampleRequest_def)
  note p = handler_valid_parts [OF g v q, of nullUpstream]
  have i: "getProp (itemFor nullUpstream rn y s e) ''reason'' = Some (JStr ''Promise rejected'')"
    for rn y s e
    by (simp add: itemFor_def a toItem_def)
  show ?thesis
    by (simp add: fetchSingleResult_eq a p(4) length_registrationNumbers list_all_iff i)
qed

text \<open>
  C8. \<^verbatim>\<open>fetchSingleResult\<close> does not reject when what is thrown inside its \<^verbatim>\<open>try\<close> is an
  error object: if the fetch of its URL, and the reading of the body, fulfil or reject
  with an error object, it resolves to an object whose status is \<^verbatim>\<open>success\<close>,
  \<^verbatim>\<open>not_found\<close> or \<^verbatim>\<open>error\<close>. So when that holds of every URL of a batch, every settled
  result the handler maps is fulfilled, and when it holds of every URL a run fetches,
  no item of the response carries the reason \<^verbatim>\<open>Promise rejected\<close> of the handler's
  branch for rejected promises.
\<close>

theorem fetchSingleResult_never_rejects:
  "(rejectsWithErrors (up (targetUrl rn y s e)) \<longrightarrow>
      (\<exists>v. fst (fetchSingleResult up rn y s e calls) = Fulfilled v \<and>
           val_status v \<in> set [''success'', ''not_found'', ''error''])) \<and>
   ((\<forall>rn\<in>set rns. rejectsWithErrors (up (targetUrl rn y s e))) \<longrightarrow>
      list_all (\<lambda>result. case result of Fulfilled v \<Rightarrow> True | Rejected err \<Rightarrow> False)
        (fst (fetchAll up y s e rns calls))) \<and>
   ((\<forall>c\<in>set (fetched (handler up req)). rejectsWithErrors (up (url c))) \<longrightarrow>
      list_all (\<lambda>item. getProp item ''reason'' \<noteq> Some (JStr ''Promise rejected''))
        (bodyItems (handler up req)))"
proof (intro conjI impI)
  assume "rejectsWithErrors (up (targetUrl rn y s e))"
  from settled_fulfilled [where up = up, OF this] obtain v where v: "settledResult up rn y s e = Fulfilled v" ..
  from fulfilled_status [OF v] v
  show "\<exists>v. fst (fetchSingleResult up rn y s e calls) = Fulfilled v \<and>
        val_status v \<in> set [''success'', ''not_found'', ''error'']"
    by (simp only: fetchSingleResult_eq fst_conv) (rule exI [of _ v], simp)
next
  assume "\<forall>rn\<in>set rns. rejectsWithErrors (up (targetUrl rn y s e))"
  then show "list_all (\<lambda>result. case result of Fulfilled v \<Rightarrow> True | Rejected err \<Rightarrow> False)
     (fst (fetchAll up y s e rns calls))"
    by (simp add: fetchAll_eq list_all_iff isFulfilled_settled)
next
  assume a: "\<forall>c\<in>set (fetched (handler up req)). rejectsWithErrors (up (url c))"
  show "list_all (\<lambda>item. getProp item ''reason'' \<noteq> Some (JStr ''Promise rejected''))
     (bodyItems (handler up req))"
  proof (cases "req_method req = ''GET''")
    case False
    then show ?thesis by (simp add: handler_def bodyItems_def errorBody_def)
  next
    case g: True
    show ?thesis
    proof (cases "validQuery req")
      case False
      from handler_invalid [OF g False] show ?thesis
        by (auto simp: bodyItems_def badRequest_def errorBody_def)
    next
      case True
      from validQuery_fields [OF True] obtain r y s e where
        q: "query_reg_no req = Some r" "query_year req = Some y"
           "query_semester req = Some s" "query_exam_held req = Some e" by blast
      let ?regs = "registrationNumbers (take 8 r) (int (lastThree r))"
      let ?S = "toUpperCase s" and ?E = "encodeURIComponent e"
      note p = handler_valid_parts [OF g True q, of up]
      have "getProp (itemFor up rn y ?S ?E) ''reason'' \<noteq> Some (JStr ''Promise rejected'')"
        if "rn \<in> set ?regs" for rn
      proof -
        have "issuedCall rn y ?S ?E \<in> set (fetched (handler up req))"
          unfolding p(5) set_map using that by (rule imageI)
        with a have "rejectsWithErrors (up (url (issuedCall rn y ?S ?E)))" by (rule bspec)
        then have "rejectsWithErrors (up (targetUrl rn y ?S ?E))"
          by (simp only: issuedCall_def fetch_call.sel)
        from settled_fulfilled [where up = up, OF this] show ?thesis by (rule item_not_rejected)
      qed
      then show ?thesis by (simp add: p(4) list_all_iff)
    qed
  qed
qed

theorem fetchSingleResult_never_rejects_witness:
  "rejectsWithErrors (slowUpstream (targetUrl ''21105111001'' ''2024'' ''III'' ''Nov%2F2024'')) \<and>
   (\<exists>v. fst (fetchSingleResult slowUpstream ''21105111001'' ''2024'' ''III'' ''Nov%2F2024'' []) =
          Fulfilled v \<and> val_status v \<in> set [''success'', ''not_found'', ''error'']) \<and>
   list_all (\<lambda>rn. rejectsWithErrors (slowUpstream (targetUrl rn ''2024'' ''III'' ''Nov%2F2024'')))
     [''21105111001'', ''21105111002''] \<and>
   list_all (\<lambda>result. case result of Fulfilled v \<Rightarrow> True | Rejected err \<Rightarrow> False)
     (fst (fetchAll slowUpstream ''2024'' ''III'' ''Nov%2F2024''
        [''21105111001'', ''21105111002''] [])) \<and>
   length (fetched (handler slowUpstream sampleRequest)) = 5 \<and>
   list_all (\<lambda>c. rejectsWithErrors (slowUpstream (url c)))
     (fetched (handler slowUpstream sampleRequest)) \<and>
   length (bodyItems (handler slowUpstream sampleRequest)) = 5 \<and>
   list_all (\<lambda>item. getProp item ''reason'' \<noteq> Some (JStr ''Promise rejected''))
     (bodyItems (handler slowUpstream sampleRequest))"
proof -
  have u: "rejectsWithErrors (slowUpstream target)" for target
    by (simp add: slowUpstream_def rejectsWithErrors_def isErrorObject_def)
  have g: "req_method sampleRequest = ''GET''" by (simp add: sampleRequest_def)
  have v: "validQuery sampleRequest" by code_simp
  have q: "query_reg_no sampleRequest = Some ''21105111001''"
    "query_year sampleRequest = Some ''2024''"
    "query_semester sampleRequest = Some ''iii''"
    "query_exam_held sampleRequest = Some ''Nov/2024''"
    by (simp_all add: sampleRequest_def)
  note p = handler_valid_parts [OF g v q, of slowUpstream]
  have n: "length (fetched (handler slowUpstream sampleRequest)) = 5"
    "length (bodyItems (handler slowUpstream sampleRequest)) = 5"
    by (simp_all add: p(4,5) length_registrationNumbers)
  from fetchSingleResult_never_rejects [where up = slowUpstream and rn = "''21105111001''"
      and y = "''2024''" and s = "''III''" and e = "''Nov%2F2024''" and calls = "[]"
      and rns = "[''21105111001'', ''21105111002'']" and req = sampleRequest]
  show ?thesis using u n by (simp add: list_all_iff)
qed

subsection \<open>No URL is fetched twice\<close>

lemma digit_chars_value: "list_all (\<lambda>n. digitValue (''0123456789'' ! n) = n) [0..<10]"
  by code_simp

lemma digit_char_value: "n < 10 \<Longrightarrow> digitValue (''0123456789'' ! n) = n"
  using digit_chars_value unfolding list_all_iff by simp

lemma digits_of_value: "foldl (\<lambda>a c. a * 10 + digitValue c) 0 (digits_of m) = m"
proof (induction m rule: digits_of.induct)
  case (1 n)
  show ?case
  proof (cases "n < 10")
    case True
    then show ?thesis by (subst digits_of.simps) (simp add: digit_char_value)
  next
    case False
    with 1 have "foldl (\<lambda>a c. a * 10 + digitValue c) 0 (digits_of (n div 10)) = n div 10"
      by simp
    with False show ?thesis
      by (subst digits_of.simps) (simp add: digit_char_value)
  qed
qed

lemma zeros_value: "foldl (\<lambda>a c. a * 10 + digitValue c) 0 (replicate k CHR ''0'' @ s) =
    foldl (\<lambda>a c. a * 10 + digitValue c) 0 s"
  by (induction k) (simp_all add: digitValue_def isDigit_def)

lemma padded_value:
  "foldl (\<lambda>a c. a * 10 + digitValue c) 0 (padStart 3 CHR ''0'' (digits_of m)) = m"
  unfolding padStart_def by (simp only: zeros_value digits_of_value)

lemma padded_inj:
  assumes "padStart 3 CHR ''0'' (digits_of a) = padStart 3 CHR ''0'' (digits_of b)"
  shows "a = b"
proof -
  from assms have
    "foldl (\<lambda>a c. a * 10 + digitValue c) 0 (padStart 3 CHR ''0'' (digits_of a)) =
     foldl (\<lambda>a c. a * 10 + digitValue c) 0 (padStart 3 CHR ''0'' (digits_of b))"
    by (rule arg_cong)
  then show ?thesis by (simp only: padded_value)
qed

lemma registrationNumbers_distinct: "distinct (registrationNumbers p (int m))"
proof -
  have "inj_on (\<lambda>k. p @ padStart 3 CHR ''0'' (digits_of (m + k))) (set [0..<5])"
  proof (rule inj_onI)
    fix j k
    assume "p @ padStart 3 CHR ''0'' (digits_of (m + j)) = p @ padStart 3 CHR ''0'' (digits_of (m + k))"
    then have "padStart 3 CHR ''0'' (digits_of (m + j)) = padStart 3 CHR ''0'' (digits_of (m + k))"
      by (simp only: same_append_eq)
    from padded_inj [OF this] show "j = k" by simp
  qed
  moreover have "distinct [0..<5::nat]" by (rule distinct_upt)
  ultimately have "distinct (map (\<lambda>k. p @ padStart 3 CHR ''0'' (digits_of (m + k))) [0..<5])"
    by (simp only: distinct_map simp_thms)
  then show ?thesis by (simp only: registrationNumbers_nat)
qed

lemma targetUrl_inj:
  assumes "targetUrl a y s e = targetUrl b y s e"
  shows "a = b"
proof -
  from assms have "''&redg_no='' @ a @ ''&semester='' @ s @ ''&exam_held='' @ e =
      ''&redg_no='' @ b @ ''&semester='' @ s @ ''&exam_held='' @ e"
    unfolding targetUrl_def by (simp only: same_append_eq)
  then have "a @ (''&semester='' @ s @ ''&exam_held='' @ e) = b @ (''&semester='' @ s @ ''&exam_held='' @ e)"
    by (simp only: same_append_eq)
  then show ?thesis by (simp only: append_same_eq)
qed

lemma fetched_urls_distinct:
  assumes "req_method req = ''GET''" "validQuery req"
  shows "distinct (map url (fetched (handler up req)))"
proof -
  from validQuery_fields [OF assms(2)] obtain r y s e where
    q: "query_reg_no req = Some r" "query_year req = Some y"
       "query_semester req = Some s" "query_exam_held req = Some e" by blast
  note p = handler_valid_parts [OF assms q, of up]
  let ?regs = "registrationNumbers (take 8 r) (int (lastThree r))"
  let ?f = "\<lambda>rn. targetUrl rn y (toUpperCase s) (encodeURIComponent e)"
  have u: "map url (fetched (handler up req)) = map ?f ?regs"
    unfolding p(5) by (simp add: issuedCall_def comp_def)
  have "inj_on ?f (set ?regs)" by (rule inj_onI) (rule targetUrl_inj)
  with registrationNumbers_distinct [of "take 8 r" "lastThree r"]
  have "distinct (map ?f ?regs)" by (simp only: distinct_map simp_thms)
  then show ?thesis by (simp only: u)
qed

subsection \<open>The handler as a function of the request and the upstream\<close>

lemma settledResult_cong:
  assumes "u1 (targetUrl rn y s e) = u2 (targetUrl rn y s e)"
  shows "settledResult u1 rn y s e = settledResult u2 rn y s e"
  using assms by (simp add: settledResult_cases fetchTry_def)

text \<open>
  The response depends on the upstream only through the URLs that the run fetches: on
  the same request, two upstreams that answer alike on each of these URLs give the same
  response, status code, headers and body, and the same calls.
\<close>

lemma handler_reads_fetched_urls:
  assumes "\<forall>c\<in>set (fetched (handler u1 req)). u1 (url c) = u2 (url c)"
  shows "handler u1 req = handler u2 req"
proof (cases "req_method req = ''GET''")
  case False
  then show ?thesis by (simp add: handler_def)
next
  case g: True
  show ?thesis
  proof (cases "validQuery req")
    case False
    from handler_invalid [OF g False] show ?thesis by auto
  next
    case True
    from validQuery_fields [OF True] obtain r y s e where
      q: "query_reg_no req = Some r" "query_year req = Some y"
         "query_semester req = Some s" "query_exam_held req = Some e" by blast
    let ?regs = "registrationNumbers (take 8 r) (int (lastThree r))"
    let ?S = "toUpperCase s" and ?E = "encodeURIComponent e"
    note p1 = handler_valid_parts [OF g True q, of u1]
    note p2 = handler_valid_parts [OF g True q, of u2]
    have same: "itemFor u1 rn y ?S ?E = itemFor u2 rn y ?S ?E" if "rn \<in> set ?regs" for rn
    proof -
      have "issuedCall rn y ?S ?E \<in> set (fetched (handler u1 req))"
        unfolding p1(5) set_map using that by (rule imageI)
      with assms have "u1 (url (issuedCall rn y ?S ?E)) = u2 (url (issuedCall rn y ?S ?E))"
        by (rule bspec)
      then have "u1 (targetUrl rn y ?S ?E) = u2 (targetUrl rn y ?S ?E)"
        by (simp only: issuedCall_def fetch_call.sel)
      then have "settledResult u1 rn y ?S ?E = settledResult u2 rn y ?S ?E"
        by (rule settledResult_cong)
      then show ?thesis by (simp only: itemFor_def)
    qed
    have items: "bodyItems (handler u1 req) = bodyItems (handler u2 req)"
      unfolding p1(4) p2(4) by (rule map_cong [OF refl]) (simp only: same)
    have "res_status (handler u1 req) = res_status (handler u2 req)"
      "res_headers (handler u1 req) = res_headers (handler u2 req)"
      "res_body (handler u1 req) = res_body (handler u2 req)"
      "fetched (handler u1 req) = fetched (handler u2 req)"
      by (simp_all only: p1(1,2,3,5) p2(1,2,3,5) items)
    then show ?thesis by (simp only: outcome.expand)
  qed
qed

subsection \<open>The two copies of the handler\<close>

lemma handlers_agree_off_GET:
  "req_method req \<noteq> ''GET'' \<Longrightarrow> handler_part_000 up req = Inr (handler up req)"
  by (simp add: handler_part_000_def part_000_with_def handler_def)

lemma parseInt_ddd: "parseInt (slice_back ''ddddddddddd'') (Some 10) = None"
  by code_simp

lemma part_000_always_400:
  assumes g: "req_method req = ''GET''"
  shows "\<exists>msg. \<forall>up. handler_part_000 up req = Inr (badRequest msg)"
proof (cases "case query_reg_no req of None \<Rightarrow> True | Some r \<Rightarrow> r = [] \<or> \<not> test_d11 r")
  case True
  then show ?thesis
    by (auto simp: handler_part_000_def part_000_with_def g Let_def stringOf_def)
next
  case False
  then have r: "query_reg_no req = Some ''ddddddddddd''"
    by (auto simp: test_d11_def split: option.splits)
  show ?thesis
    by (auto simp: handler_part_000_def part_000_with_def g Let_def stringOf_def r test_d11_def
        parseInt_ddd)
qed









subsection \<open>Repeated query parameters\<close>

lemma comma_in_joinComma: "CHR '','' \<in> set (joinComma (a # b # rest))"
  by simp

lemma joinComma_not_digits: "\<not> test_digits11 (joinComma (a # b # rest))"
proof
  assume "test_digits11 (joinComma (a # b # rest))"
  then have "list_all isDigit (joinComma (a # b # rest))" by (simp add: test_digits11_def)
  then have "isDigit (CHR '','')"
    unfolding list_all_iff using comma_in_joinComma [of a b rest] by (rule bspec)
  then show False by (simp add: isDigit_def)
qed

lemma joinComma_not_empty: "joinComma (a # b # rest) \<noteq> []"
  by simp

lemma reg_no_once:
  assumes "\<not> (falsy v \<or> \<not> test_digits11 (stringOfValue v))"
  obtains r where "v = Once r" "r \<noteq> []" "test_digits11 r"
proof (cases v)
  case Absent
  with assms show ?thesis by (simp add: falsy_def)
next
  case (Once r)
  with assms that show ?thesis by (simp add: falsy_def stringOfValue_def)
next
  case (Repeated a b rest)
  with assms joinComma_not_digits [of a b rest] show ?thesis
    by (simp add: stringOfValue_def)
qed

lemma bad_reg_no_flatten:
  assumes "falsy v \<or> \<not> test_digits11 (stringOfValue v)"
  shows "flattenValue v = None \<or>
         (\<exists>r. flattenValue v = Some r \<and> (r = [] \<or> \<not> test_digits11 r))"
proof (cases v)
  case Absent
  then show ?thesis by (simp add: flattenValue_def)
next
  case (Once r)
  with assms show ?thesis by (simp add: falsy_def flattenValue_def stringOfValue_def)
next
  case (Repeated a b rest)
  with joinComma_not_digits [of a b rest] show ?thesis by (simp add: flattenValue_def)
qed

lemma present_value:
  assumes "v \<noteq> Absent"
  shows "flattenValue v = Some (stringOfValue v)" "falsy v = (stringOfValue v = [])"
proof -
  show "flattenValue v = Some (stringOfValue v)"
    using assms by (cases v) (simp_all add: flattenValue_def stringOfValue_def)
  show "falsy v = (stringOfValue v = [])"
    using assms by (cases v) (simp_all add: falsy_def stringOfValue_def)
qed

lemma absent_value: "flattenValue Absent = None" "falsy Absent"
  by (simp_all add: flattenValue_def falsy_def)

lemma once_value:
  "flattenValue (Once r) = Some r" "falsy (Once r) = (r = [])" "stringOfValue (Once r) = r"
  "sliceFrontValue (Once r) = Inr (slice_front r)" "sliceBackValue (Once r) = Inr (slice_back r)"
  by (simp_all add: flattenValue_def falsy_def stringOfValue_def sliceFrontValue_def
      sliceBackValue_def)

text \<open>The handler of result.js on GET, check by check.\<close>

lemma handler_bad_reg_no:
  assumes "req_method req = ''GET''"
    and "query_reg_no req = None \<or>
         (\<exists>r. query_reg_no req = Some r \<and> (r = [] \<or> \<not> test_digits11 r))"
  shows \<open>handler up req =
    badRequest ''Invalid parameter. Use "reg_no" with a full 11-digit number.''\<close>
proof (cases "query_reg_no req")
  case None
  then show ?thesis by (simp add: handler_def assms(1))
next
  case (Some r)
  with assms(2) have "r = [] \<or> \<not> test_digits11 r" by simp
  with Some show ?thesis by (simp add: handler_def assms(1))
qed

lemma handler_bad_year:
  assumes "req_method req = ''GET''"
    and "query_reg_no req = Some r" "r \<noteq> []" "test_digits11 r"
    and "query_year req = None \<or>
         (\<exists>y. query_year req = Some y \<and> (y = [] \<or> parseInt y None = None))"
  shows \<open>handler up req = badRequest ''Missing or invalid "year" parameter.''\<close>
proof (cases "query_year req")
  case None
  then show ?thesis by (simp add: handler_def assms(1-4))
next
  case (Some y)
  with assms(5) have "y = [] \<or> parseInt y None = None" by simp
  with Some show ?thesis by (simp add: handler_def assms(1-4))
qed

lemma handler_bad_semester:
  assumes "req_method req = ''GET''"
    and "query_reg_no req = Some r" "r \<noteq> []" "test_digits11 r"
    and "query_year req = Some y" "y \<noteq> []" "parseInt y None \<noteq> None"
    and "query_semester req = None \<or>
         (\<exists>s. query_semester req = Some s \<and>
              (toUpperCase s = [] \<or> \<not> romanMapTruthy (toUpperCase s)))"
  shows \<open>handler up req =
    badRequest ''Missing or invalid "semester" parameter (use Roman numerals I-VIII).''\<close>
proof (cases "query_semester req")
  case None
  then show ?thesis by (simp add: handler_def assms(1-7))
next
  case (Some s)
  with assms(8) have "toUpperCase s = [] \<or> \<not> romanMapTruthy (toUpperCase s)" by simp
  with Some show ?thesis by (simp add: handler_def assms(1-7))
qed

lemma handler_bad_exam_held:
  assumes "req_method req = ''GET''"
    and "query_reg_no req = Some r" "r \<noteq> []" "test_digits11 r"
    and "query_year req = Some y" "y \<noteq> []" "parseInt y None \<noteq> None"
    and "query_semester req = Some s" "toUpperCase s \<noteq> []" "romanMapTruthy (toUpperCase s)"
    and "query_exam_held req = None \<or> query_exam_held req = Some []"
  shows \<open>handler up req = badRequest ''Missing "exam_held" parameter.''\<close>
  using assms(11)
proof (elim disjE)
  assume "query_exam_held req = None"
  then show ?thesis by (simp add: handler_def assms(1-10))
next
  assume "query_exam_held req = Some []"
  then show ?thesis by (simp add: handler_def assms(1-10))
qed

lemma handler_past_checks:
  assumes "req_method req = ''GET''"
    and "query_reg_no req = Some r" "r \<noteq> []" "test_digits11 r"
    and "query_year req = Some y" "y \<noteq> []" "parseInt y None \<noteq> None"
    and "query_semester req = Some s" "toUpperCase s \<noteq> []" "romanMapTruthy (toUpperCase s)"
    and "query_exam_held req = Some e" "e \<noteq> []"
  shows \<open>handler up req =
    (case parseInt (slice_back r) (Some 10) of
       None \<Rightarrow> badRequest ''Could not parse starting number from reg_no.''
     | Some startNum \<Rightarrow> batchPhase up (slice_front r) startNum y (toUpperCase s) e)\<close>
  by (simp add: handler_def assms)

text \<open>
  On a request whose \<^verbatim>\<open>semester\<close> is not repeated the handler returns, and what it returns
  is what it returns on the request with each repeated parameter replaced by its
  elements joined with commas.
\<close>

lemma handler_any_flatten:
  assumes ns: "\<not> isRepeated (any_semester req)"
  shows "handler_any up req = Inr (handler up (flatten req))"
proof (cases "any_method req = ''GET''")
  case False
  then show ?thesis by (simp add: handler_any_def handler_def flatten_def)
next
  case g: True
  have fl: "req_method (flatten req) = ''GET''"
    "query_reg_no (flatten req) = flattenValue (any_reg_no req)"
    "query_year (flatten req) = flattenValue (any_year req)"
    "query_semester (flatten req) = flattenValue (any_semester req)"
    "query_exam_held (flatten req) = flattenValue (any_exam_held req)"
    by (simp_all add: flatten_def g)
  show ?thesis
  proof (cases "falsy (any_reg_no req) \<or> \<not> test_digits11 (stringOfValue (any_reg_no req))")
    case True
    from bad_reg_no_flatten [OF True]
    have "query_reg_no (flatten req) = None \<or>
         (\<exists>r. query_reg_no (flatten req) = Some r \<and> (r = [] \<or> \<not> test_digits11 r))"
      by (simp only: fl)
    from handler_bad_reg_no [OF fl(1) this, of up] True show ?thesis
      by (simp add: handler_any_def g Let_def)
  next
    case rok: False
    then obtain r where r0: "any_reg_no req = Once r" and r: "r \<noteq> []" "test_digits11 r"
      by (rule reg_no_once)
    have fr: "query_reg_no (flatten req) = Some r" by (simp add: fl r0 once_value)
    show ?thesis
    proof (cases "any_year req = Absent")
      case True
      then have "query_year (flatten req) = None" by (simp add: fl absent_value)
      then have *: "query_year (flatten req) = None \<or>
         (\<exists>y. query_year (flatten req) = Some y \<and> (y = [] \<or> parseInt y None = None))" ..
      from handler_bad_year [OF fl(1) fr r *, of up] show ?thesis
        by (simp add: handler_any_def g Let_def r0 once_value r True absent_value)
    next
      case ypres: False
      define y where "y = stringOfValue (any_year req)"
      have fy: "query_year (flatten req) = Some y" and ly: "falsy (any_year req) = (y = [])"
        using present_value [OF ypres] by (simp_all add: fl y_def)
      show ?thesis
      proof (cases "y = [] \<or> parseInt y None = None")
        case True
        with fy have *: "query_year (flatten req) = None \<or>
          (\<exists>y. query_year (flatten req) = Some y \<and> (y = [] \<or> parseInt y None = None))"
          by simp
        from handler_bad_year [OF fl(1) fr r *, of up] True show ?thesis
          by (simp add: handler_any_def g Let_def r0 once_value r ly y_def [symmetric])
      next
        case yok: False
        then have y: "y \<noteq> []" "parseInt y None \<noteq> None" by simp_all
        show ?thesis
        proof (cases "any_semester req")
          case (Repeated a b rest)
          with ns show ?thesis by (simp add: isRepeated_def)
        next
          case Absent
          then have "query_semester (flatten req) = None" by (simp add: fl absent_value)
          then have *: "query_semester (flatten req) = None \<or>
            (\<exists>s. query_semester (flatten req) = Some s \<and>
              (toUpperCase s = [] \<or> \<not> romanMapTruthy (toUpperCase s)))" ..
          from handler_bad_semester [OF fl(1) fr r fy y *, of up] show ?thesis
            by (simp add: handler_any_def g Let_def r0 once_value r ly y y_def [symmetric] Absent)
        next
          case sem: (Once s)
          have fs: "query_semester (flatten req) = Some s" by (simp add: fl sem once_value)
          show ?thesis
          proof (cases "toUpperCase s = [] \<or> \<not> romanMapTruthy (toUpperCase s)")
            case True
            with fs have *: "query_semester (flatten req) = None \<or>
              (\<exists>s. query_semester (flatten req) = Some s \<and>
                (toUpperCase s = [] \<or> \<not> romanMapTruthy (toUpperCase s)))"
              by simp
            from handler_bad_semester [OF fl(1) fr r fy y *, of up] True show ?thesis
              by (simp add: handler_any_def g Let_def r0 once_value r ly y y_def [symmetric] sem)
          next
            case sok: False
            then have s: "toUpperCase s \<noteq> []" "romanMapTruthy (toUpperCase s)" by simp_all
            show ?thesis
            proof (cases "any_exam_held req = Absent")
              case True
              then have "query_exam_held (flatten req) = None" by (simp add: fl absent_value)
              then have *: "query_exam_held (flatten req) = None \<or>
                  query_exam_held (flatten req) = Some []" ..
              from handler_bad_exam_held [OF fl(1) fr r fy y fs s *, of up] show ?thesis
                by (simp add: handler_any_def g Let_def r0 once_value r ly y y_def [symmetric]
                    sem s True absent_value)
            next
              case epres: False
              define e where "e = stringOfValue (any_exam_held req)"
              have fe: "query_exam_held (flatten req) = Some e"
                and le: "falsy (any_exam_held req) = (e = [])"
                using present_value [OF epres] by (simp_all add: fl e_def)
              show ?thesis
              proof (cases "e = []")
                case True
                with fe have *: "query_exam_held (flatten req) = None \<or>
                  query_exam_held (flatten req) = Some []" by simp
                from handler_bad_exam_held [OF fl(1) fr r fy y fs s *, of up] True show ?thesis
                  by (simp add: handler_any_def g Let_def r0 once_value r ly y y_def [symmetric]
                      sem s le)
              next
                case eok: False
                from handler_past_checks [OF fl(1) fr r fy y fs s fe eok, of up] eok
                show ?thesis
                  by (simp add: handler_any_def g Let_def r0 once_value r ly y y_def [symmetric]
                      sem s le e_def [symmetric] split: option.split)
              qed
            qed
          qed
        qed
      qed
    qed
  qed
qed

text \<open>
  So on every GET request whose \<^verbatim>\<open>semester\<close> is not repeated, the handler answers 400
  with an error object and no upstream request exactly when the query is not valid, and
  fetches the batch otherwise.
\<close>

lemma validation_400_iff_any:
  assumes "any_method req = ''GET''" and "\<not> isRepeated (any_semester req)"
  shows "\<exists>out. handler_any up req = Inr out \<and>
           ((res_status out = 400 \<and> (\<exists>msg. res_body out = Json (JObj [(''error'', JStr msg)])) \<and>
             fetched out = []) \<longleftrightarrow> \<not> validQuery (flatten req)) \<and>
           (validQuery (flatten req) \<longrightarrow> res_status out = 200 \<and> length (fetched out) = 5)"
proof -
  have g: "req_method (flatten req) = ''GET''" using assms(1) by (simp add: flatten_def)
  from validation_400_iff [OF g, of up] handler_any_flatten [OF assms(2), of up]
  show ?thesis by (intro exI [of _ "handler up (flatten req)"]) simp
qed

text \<open>
  A repeated \<^verbatim>\<open>semester\<close> behind a \<^verbatim>\<open>reg_no\<close> and a \<^verbatim>\<open>year\<close> that pass their checks makes
  the handler throw, whatever the other parameters and the upstream are.
\<close>

lemma repeated_semester_always_throws:
  assumes "any_method req = ''GET''"
    and "\<not> (falsy (any_reg_no req) \<or> \<not> test_digits11 (stringOfValue (any_reg_no req)))"
    and "\<not> (falsy (any_year req) \<or> parseInt (stringOfValue (any_year req)) None = None)"
    and "any_semester req = Repeated a b rest"
  shows "handler_any up req = Inl (JsError ''TypeError'' ''semester?.toUpperCase is not a function'')"
  using assms by (simp add: handler_any_def Let_def)

text \<open>
  C4. The statement that on GET the handler answers 400 with an error object, before
  any upstream request, whenever a parameter is not as required, and fetches the batch
  otherwise, fails where \<^verbatim>\<open>semester\<close> is given twice. On
  \<^verbatim>\<open>GET ?reg_no=21105111001&year=2024&semester=I&semester=II&exam_held=Nov/2024\<close> the value of
  \<^verbatim>\<open>req.query.semester\<close> is the array of \<^verbatim>\<open>I\<close> and \<^verbatim>\<open>II\<close>, which is not a Roman numeral I to
  VIII; \<^verbatim>\<open>semester?.toUpperCase()\<close> in line 75 throws a \<^verbatim>\<open>TypeError\<close> outside any \<^verbatim>\<open>try\<close>, and
  the handler sends neither a 400 nor a batch: its promise rejects.
\<close>

theorem repeated_semester_throws:
  "any_method repeatedSemester = ''GET'' \<and>
   any_semester repeatedSemester = Repeated ''I'' ''II'' [] \<and>
   handler_any sampleUpstream repeatedSemester =
     Inl (JsError ''TypeError'' ''semester?.toUpperCase is not a function'') \<and>
   (\<forall>out. handler_any sampleUpstream repeatedSemester \<noteq> Inr out)"
proof -
  have t: "test_digits11 ''21105111001''" by code_simp
  have y: "parseInt ''2024'' None = Some 2024" by code_simp
  have h: "handler_any sampleUpstream repeatedSemester =
     Inl (JsError ''TypeError'' ''semester?.toUpperCase is not a function'')"
    by (simp add: handler_any_def repeatedSemester_def Let_def falsy_def stringOfValue_def t y)
  show ?thesis unfolding h by (simp add: repeatedSemester_def)
qed

end
